theory Spec2Isabelle
  imports Main "HOL-Library.Sublist"
begin

section \<open>The VPC tutorial script as a program over a network provider\<close>

text \<open>
  This theory embeds \<^verbatim>\<open>scripts/01_vpc_tutorial.py\<close>: the functions
  \<^verbatim>\<open>create_vpc\<close>, \<^verbatim>\<open>create_internet_gateway\<close>, \<^verbatim>\<open>create_subnet\<close>,
  \<^verbatim>\<open>create_route_table\<close>, \<^verbatim>\<open>list_vpc_resources\<close>, \<^verbatim>\<open>cleanup_vpc\<close> and
  \<^verbatim>\<open>main\<close>.

  The script does nothing but call the EC2 control plane through boto3 and print. The
  control plane is not part of the repository, so it is a parameter of every function
  here: a provider answers one call at a time, either with a reply or by raising, and
  may change its own state. Each function of the script becomes a program that returns
  its result (or the exception it raised), the sequence of provider calls it made with
  their outcomes, and the provider's new state.

  Console output is left out: \<^verbatim>\<open>print\<close> never changes the control flow. Every
  \<^verbatim>\<open>except ClientError as e: print(...); raise\<close> handler of the script, and the
  \<^verbatim>\<open>except Exception\<close> handler of \<^verbatim>\<open>main\<close>, prints and re-raises the same
  exception, so in the model an exception simply propagates to the caller.
\<close>

subsection \<open>Provider calls, replies and exceptions\<close>

text \<open>
  A boto3 resource object (\<^verbatim>\<open>vpc\<close>, \<^verbatim>\<open>igw\<close>, \<^verbatim>\<open>subnet\<close>, \<^verbatim>\<open>route_table\<close>) is
  represented by its identifier. What the listings return carries the attributes the
  script reads: the identifier, the tags (\<^verbatim>\<open>None\<close> when the attribute is absent) and,
  for a route table, \<^verbatim>\<open>associations_attribute\<close>.
\<close>

type_synonym tags = "(string \<times> string) list"

record association =
  assoc_main :: "bool option"  \<comment> \<open>the value of \<^verbatim>\<open>a.get('Main')\<close>, \<open>None\<close> when the key is absent\<close>

record subnet =
  subnet_id :: string
  subnet_tags :: "tags option"

record internet_gateway =
  igw_id :: string
  igw_tags :: "tags option"

record route_table =
  rt_id :: string
  rt_tags :: "tags option"
  associations_attribute :: "association list option"

datatype call =
    CreateVpc string  \<comment> \<open>\<^verbatim>\<open>ec2_resource.create_vpc(CidrBlock=...)\<close>\<close>
  | CreateTags string tags  \<comment> \<open>\<^verbatim>\<open>r.create_tags(Tags=[...])\<close> on the resource with this id\<close>
  | WaitUntilAvailable string  \<comment> \<open>\<^verbatim>\<open>vpc.wait_until_available()\<close>\<close>
  | ModifyVpcAttribute string bool  \<comment> \<open>\<^verbatim>\<open>EnableDnsHostnames={'Value': b}\<close>\<close>
  | CreateInternetGateway
  | AttachInternetGateway string string  \<comment> \<open>VPC id, gateway id\<close>
  | CreateSubnet string string string  \<comment> \<open>VPC id, CIDR block, availability zone\<close>
  | ModifySubnetAttribute string bool  \<comment> \<open>\<^verbatim>\<open>MapPublicIpOnLaunch={'Value': b}\<close>\<close>
  | CreateRouteTable string  \<comment> \<open>VPC id\<close>
  | CreateRoute string string string  \<comment> \<open>route table id, destination CIDR, gateway id\<close>
  | AssociateWithSubnet string string  \<comment> \<open>route table id, subnet id\<close>
  | DisassociateRouteTable string  \<comment> \<open>association id; offered by the provider, never used by the script\<close>
  | LoadVpc string  \<comment> \<open>the describe call behind \<^verbatim>\<open>vpc.cidr_block\<close> and \<^verbatim>\<open>vpc.state\<close>\<close>
  | SubnetsAll string  \<comment> \<open>\<^verbatim>\<open>vpc.subnets.all()\<close>\<close>
  | InternetGatewaysAll string  \<comment> \<open>\<^verbatim>\<open>vpc.internet_gateways.all()\<close>\<close>
  | RouteTablesAll string  \<comment> \<open>\<^verbatim>\<open>vpc.route_tables.all()\<close>\<close>
  | DeleteSubnet string
  | DetachInternetGateway string string  \<comment> \<open>VPC id, gateway id\<close>
  | DeleteInternetGateway string
  | DeleteRouteTable string
  | DeleteVpc string

datatype reply =
    Done
  | Created string  \<comment> \<open>the id of the new resource\<close>
  | SubnetList "subnet list"
  | InternetGatewayList "internet_gateway list"
  | RouteTableList "route_table list"

datatype exn =
    ClientError string  \<comment> \<open>botocore's \<^verbatim>\<open>ClientError\<close> with its error code\<close>
  | OtherError string  \<comment> \<open>any other exception raised inside a provider call\<close>
  | MalformedReply  \<comment> \<open>the reply has not the shape the call promises\<close>
  | TypeError  \<comment> \<open>iterating over \<^verbatim>\<open>None\<close>\<close>
  | EOFError  \<comment> \<open>\<^verbatim>\<open>input()\<close> at end of input\<close>

type_synonym event = "call \<times> (exn + reply)"

type_synonym 'p provider = "call \<Rightarrow> 'p \<Rightarrow> (exn + reply) \<times> 'p"

type_synonym ('a, 'p) prog = "'p \<Rightarrow> (exn + 'a) \<times> event list \<times> 'p"

subsection \<open>Sequencing\<close>

definition return_val :: "'a \<Rightarrow> ('a, 'p) prog" where
  "return_val x = (\<lambda>p. (Inr x, [], p))"

definition raise :: "exn \<Rightarrow> ('a, 'p) prog" where
  "raise e = (\<lambda>p. (Inl e, [], p))"

text \<open>Statement after statement: an exception in the first skips the second.\<close>

definition and_then :: "('a, 'p) prog \<Rightarrow> ('a \<Rightarrow> ('b, 'p) prog) \<Rightarrow> ('b, 'p) prog" where
  "and_then m f = (\<lambda>p.
     case m p of
       (Inl e, tr, p') \<Rightarrow> (Inl e, tr, p')
     | (Inr x, tr, p') \<Rightarrow> (case f x p' of (r, tr', p'') \<Rightarrow> (r, tr @ tr', p'')))"

text \<open>One provider call, recorded with its outcome.\<close>

definition invoke :: "'p provider \<Rightarrow> call \<Rightarrow> (reply, 'p) prog" where
  "invoke prov c = (\<lambda>p. case prov c p of (r, p') \<Rightarrow> (r, [(c, r)], p'))"

text \<open>A call whose return value the script does not use.\<close>

definition action :: "'p provider \<Rightarrow> call \<Rightarrow> (unit, 'p) prog" where
  "action prov c = and_then (invoke prov c) (\<lambda>_. return_val ())"

text \<open>
  A call that returns a new resource; the script goes on with its id. A reply of any
  other shape gives the script no resource to go on with: that is \<open>MalformedReply\<close>.
  The same holds for the three listings below. A collection such as
  \<^verbatim>\<open>vpc.subnets.all()\<close> is one listing call, answered before the loop over it starts.
\<close>

definition create :: "'p provider \<Rightarrow> call \<Rightarrow> (string, 'p) prog" where
  "create prov c = and_then (invoke prov c)
     (\<lambda>r. case r of Created i \<Rightarrow> return_val i | _ \<Rightarrow> raise MalformedReply)"

definition subnets_all :: "'p provider \<Rightarrow> string \<Rightarrow> (subnet list, 'p) prog" where
  "subnets_all prov vpc = and_then (invoke prov (SubnetsAll vpc))
     (\<lambda>r. case r of SubnetList l \<Rightarrow> return_val l | _ \<Rightarrow> raise MalformedReply)"

definition internet_gateways_all :: "'p provider \<Rightarrow> string \<Rightarrow> (internet_gateway list, 'p) prog" where
  "internet_gateways_all prov vpc = and_then (invoke prov (InternetGatewaysAll vpc))
     (\<lambda>r. case r of InternetGatewayList l \<Rightarrow> return_val l | _ \<Rightarrow> raise MalformedReply)"

definition route_tables_all :: "'p provider \<Rightarrow> string \<Rightarrow> (route_table list, 'p) prog" where
  "route_tables_all prov vpc = and_then (invoke prov (RouteTablesAll vpc))
     (\<lambda>r. case r of RouteTableList l \<Rightarrow> return_val l | _ \<Rightarrow> raise MalformedReply)"

text \<open>The \<^verbatim>\<open>for x in xs: body\<close> loop.\<close>

fun for_each :: "'a list \<Rightarrow> ('a \<Rightarrow> (unit, 'p) prog) \<Rightarrow> (unit, 'p) prog" where
  "for_each [] body = return_val ()"
| "for_each (x # xs) body = and_then (body x) (\<lambda>_. for_each xs body)"

subsection \<open>The creation functions\<close>

definition create_vpc :: "'p provider \<Rightarrow> (string, 'p) prog" where
  "create_vpc prov =
     and_then (create prov (CreateVpc ''10.0.0.0/16'')) (\<lambda>vpc.
     and_then (action prov (CreateTags vpc [(''Name'', ''tutorial-vpc'')])) (\<lambda>_.
     and_then (action prov (WaitUntilAvailable vpc)) (\<lambda>_.
     and_then (action prov (ModifyVpcAttribute vpc True)) (\<lambda>_.
     return_val vpc))))"


definition create_subnet ::
  "'p provider \<Rightarrow> string \<Rightarrow> string \<Rightarrow> string \<Rightarrow> string \<Rightarrow> bool \<Rightarrow> (string, 'p) prog" where
  "create_subnet prov vpc cidr availability_zone name is_public =
     and_then (create prov (CreateSubnet vpc cidr availability_zone)) (\<lambda>subnet.
     and_then (action prov (CreateTags subnet [(''Name'', name)])) (\<lambda>_.
     and_then (if is_public then action prov (ModifySubnetAttribute subnet True)
               else return_val ()) (\<lambda>_.
     return_val subnet)))"

text \<open>
  The optional arguments \<^verbatim>\<open>igw=None\<close> and \<^verbatim>\<open>subnet=None\<close> are options; a resource
  object is truthy, so \<^verbatim>\<open>if igw:\<close> asks whether the argument was given.
\<close>

definition create_route_table ::
  "'p provider \<Rightarrow> string \<Rightarrow> string \<Rightarrow> string option \<Rightarrow> string option \<Rightarrow> (string, 'p) prog" where
  "create_route_table prov vpc name igw subnet =
     and_then (create prov (CreateRouteTable vpc)) (\<lambda>route_table.
     and_then (action prov (CreateTags route_table [(''Name'', name)])) (\<lambda>_.
     and_then (case igw of
                 Some g \<Rightarrow> action prov (CreateRoute route_table ''0.0.0.0/0'' g)
               | None \<Rightarrow> return_val ()) (\<lambda>_.
     and_then (case subnet of
                 Some s \<Rightarrow> action prov (AssociateWithSubnet route_table s)
               | None \<Rightarrow> return_val ()) (\<lambda>_.
     return_val route_table))))"

subsection \<open>Listing\<close>

text \<open>
  \<^verbatim>\<open>list_vpc_resources\<close> only prints, but it calls the provider and it iterates over
  the tags of every listed resource, which raises \<^verbatim>\<open>TypeError\<close> when they are
  \<^verbatim>\<open>None\<close>.
\<close>

definition iterate_tags :: "tags option \<Rightarrow> (unit, 'p) prog" where
  "iterate_tags ts = (case ts of None \<Rightarrow> raise TypeError | Some _ \<Rightarrow> return_val ())"


subsection \<open>Cleanup\<close>

text \<open>
  The test of the route-table loop,
  \<^verbatim>\<open>not rt.associations_attribute or not any(a.get('Main') for a in rt.associations_attribute)\<close>:
  \<^verbatim>\<open>None\<close> and the empty list are both falsy.
\<close>

definition not_main :: "route_table \<Rightarrow> bool" where
  "not_main rt =
     (case associations_attribute rt of
        None \<Rightarrow> True
      | Some as \<Rightarrow> as = [] \<or> \<not> list_ex (\<lambda>a. assoc_main a = Some True) as)"

definition cleanup_vpc :: "'p provider \<Rightarrow> string \<Rightarrow> (unit, 'p) prog" where
  "cleanup_vpc prov vpc_id =
     and_then (subnets_all prov vpc_id) (\<lambda>subnets.
     and_then (for_each subnets (\<lambda>subnet. action prov (DeleteSubnet (subnet_id subnet)))) (\<lambda>_.
     and_then (internet_gateways_all prov vpc_id) (\<lambda>igws.
     and_then (for_each igws (\<lambda>igw.
                 and_then (action prov (DetachInternetGateway vpc_id (igw_id igw))) (\<lambda>_.
                 action prov (DeleteInternetGateway (igw_id igw))))) (\<lambda>_.
     and_then (route_tables_all prov vpc_id) (\<lambda>rts.
     and_then (for_each rts (\<lambda>rt.
                 if not_main rt then action prov (DeleteRouteTable (rt_id rt))
                 else return_val ())) (\<lambda>_.
     action prov (DeleteVpc vpc_id)))))))"

subsection \<open>The tutorial run\<close>







subsection \<open>A provider for examples\<close>

text \<open>
  The simplest provider: its state is the list of outcomes it will give, one per call, in
  order, whatever the call is. It stands for one concrete run of the real control plane.
\<close>

fun scripted :: "(exn + reply) list provider" where
  "scripted c [] = (Inl (OtherError ''no reply''), [])"
| "scripted c (r # rs) = (r, rs)"

subsection \<open>What every run of a program guarantees\<close>

text \<open>
  \<open>ensures m Q\<close>: whatever the provider state, the result and the calls of a run of
  \<open>m\<close> satisfy \<open>Q\<close>.
\<close>

definition ensures :: "('a, 'p) prog \<Rightarrow> ((exn + 'a) \<Rightarrow> event list \<Rightarrow> bool) \<Rightarrow> bool" where
  "ensures m Q = (\<forall>p r tr p'. m p = (r, tr, p') \<longrightarrow> Q r tr)"

text \<open>
  \<open>fail_stop r tr\<close>: a call that raised is the last call of the run, and what it raised
  is what the run raised.
\<close>

definition fail_stop :: "(exn + 'a) \<Rightarrow> event list \<Rightarrow> bool" where
  "fail_stop r tr = (\<forall>pre c e post. tr = pre @ (c, Inl e) # post \<longrightarrow> post = [] \<and> r = Inl e)"

text \<open>The calls that read the provider's state without changing it.\<close>

definition is_lookup :: "call \<Rightarrow> bool" where
  "is_lookup c = (case c of LoadVpc _ \<Rightarrow> True | SubnetsAll _ \<Rightarrow> True
      | InternetGatewaysAll _ \<Rightarrow> True | RouteTablesAll _ \<Rightarrow> True | _ \<Rightarrow> False)"

text \<open>A sequence of calls, each made for its effect only.\<close>

definition perform :: "'p provider \<Rightarrow> call list \<Rightarrow> (unit, 'p) prog" where
  "perform prov cs = for_each cs (action prov)"

text \<open>What the provider listed in the course of a run.\<close>

fun subnets_in :: "event \<Rightarrow> subnet list" where
  "subnets_in (SubnetsAll v, Inr (SubnetList l)) = l"
| "subnets_in _ = []"

fun gateways_in :: "event \<Rightarrow> internet_gateway list" where
  "gateways_in (InternetGatewaysAll v, Inr (InternetGatewayList l)) = l"
| "gateways_in _ = []"

fun route_tables_in :: "event \<Rightarrow> route_table list" where
  "route_tables_in (RouteTablesAll v, Inr (RouteTableList l)) = l"
| "route_tables_in _ = []"

definition listed_subnets :: "event list \<Rightarrow> subnet list" where
  "listed_subnets tr = concat (map subnets_in tr)"

definition listed_gateways :: "event list \<Rightarrow> internet_gateway list" where
  "listed_gateways tr = concat (map gateways_in tr)"

definition listed_route_tables :: "event list \<Rightarrow> route_table list" where
  "listed_route_tables tr = concat (map route_tables_in tr)"

text \<open>
  The calls of a complete cleanup of the VPC \<open>v\<close> when the provider lists the subnets
  \<open>S\<close>, the gateways \<open>G\<close> and the route tables \<open>R\<close>.
\<close>

definition cleanup_calls ::
  "string \<Rightarrow> subnet list \<Rightarrow> internet_gateway list \<Rightarrow> route_table list \<Rightarrow> call list" where
  "cleanup_calls v S G R =
     SubnetsAll v # map (\<lambda>s. DeleteSubnet (subnet_id s)) S
     @ InternetGatewaysAll v
       # concat (map (\<lambda>g. [DetachInternetGateway v (igw_id g), DeleteInternetGateway (igw_id g)]) G)
     @ RouteTablesAll v # map (\<lambda>t. DeleteRouteTable (rt_id t)) (filter not_main R)
     @ [DeleteVpc v]"

text \<open>A run without lookups.\<close>

definition quiet :: "event list \<Rightarrow> bool" where
  "quiet tr = (\<forall>c \<in> fst ` set tr. \<not> is_lookup c)"

text \<open>A route table that carries an association marked Main.\<close>

definition carries_main :: "route_table \<Rightarrow> bool" where
  "carries_main t = (\<exists>a \<in> set (case associations_attribute t of None \<Rightarrow> [] | Some as \<Rightarrow> as).
                      assoc_main a = Some True)"

text \<open>The route tables a run asked the provider to delete, in order.\<close>

fun route_table_deleted :: "call \<Rightarrow> string list" where
  "route_table_deleted (DeleteRouteTable i) = [i]"
| "route_table_deleted _ = []"

definition deleted_route_tables :: "event list \<Rightarrow> string list" where
  "deleted_route_tables tr = concat (map (\<lambda>ev. route_table_deleted (fst ev)) tr)"

text \<open>
  The resources a run created, as the provider's replies name them, and the resources a
  run asked the provider to delete, each in the order of the calls.
\<close>

datatype kind = VPC | InternetGateway | Subnet | RouteTable

fun created :: "event \<Rightarrow> (kind \<times> string) list" where
  "created (CreateVpc _, Inr (Created i)) = [(VPC, i)]"
| "created (CreateInternetGateway, Inr (Created i)) = [(InternetGateway, i)]"
| "created (CreateSubnet _ _ _, Inr (Created i)) = [(Subnet, i)]"
| "created (CreateRouteTable _, Inr (Created i)) = [(RouteTable, i)]"
| "created _ = []"

fun deleted :: "call \<Rightarrow> (kind \<times> string) list" where
  "deleted (DeleteSubnet i) = [(Subnet, i)]"
| "deleted (DeleteInternetGateway i) = [(InternetGateway, i)]"
| "deleted (DeleteRouteTable i) = [(RouteTable, i)]"
| "deleted (DeleteVpc i) = [(VPC, i)]"
| "deleted _ = []"

definition created_order :: "event list \<Rightarrow> (kind \<times> string) list" where
  "created_order tr = concat (map created tr)"

definition deleted_order :: "event list \<Rightarrow> (kind \<times> string) list" where
  "deleted_order tr = concat (map (\<lambda>ev. deleted (fst ev)) tr)"



text \<open>
  The reply a call must get for the script to go on: a create call needs the new
  resource, a listing its list; the script uses the reply of no other call.
\<close>

fun well_formed :: "call \<Rightarrow> reply \<Rightarrow> bool" where
  "well_formed (CreateVpc _) rep = (case rep of Created _ \<Rightarrow> True | _ \<Rightarrow> False)"
| "well_formed CreateInternetGateway rep = (case rep of Created _ \<Rightarrow> True | _ \<Rightarrow> False)"
| "well_formed (CreateSubnet _ _ _) rep = (case rep of Created _ \<Rightarrow> True | _ \<Rightarrow> False)"
| "well_formed (CreateRouteTable _) rep = (case rep of Created _ \<Rightarrow> True | _ \<Rightarrow> False)"
| "well_formed (SubnetsAll _) rep = (case rep of SubnetList _ \<Rightarrow> True | _ \<Rightarrow> False)"
| "well_formed (InternetGatewaysAll _) rep =
     (case rep of InternetGatewayList _ \<Rightarrow> True | _ \<Rightarrow> False)"
| "well_formed (RouteTablesAll _) rep = (case rep of RouteTableList _ \<Rightarrow> True | _ \<Rightarrow> False)"
| "well_formed _ rep = True"

text \<open>
  A call went well when the provider did not raise and its reply is well formed;
  otherwise the script raises what the provider raised, or \<open>MalformedReply\<close>.
\<close>

fun good :: "event \<Rightarrow> bool" where
  "good (c, Inl e) = False"
| "good (c, Inr rep) = well_formed c rep"

fun raised_by :: "event \<Rightarrow> exn" where
  "raised_by (c, Inl e) = e"
| "raised_by (c, Inr rep) = MalformedReply"

text \<open>
  \<open>orderly r tr\<close>: the run returns exactly when every call went well, and raises
  exactly when its last call is the first that did not, raising what that call gives.
\<close>

definition orderly :: "(exn + 'a) \<Rightarrow> event list \<Rightarrow> bool" where
  "orderly r tr =
     (case r of
        Inr _ \<Rightarrow> (\<forall>ev \<in> set tr. good ev)
      | Inl e \<Rightarrow> (\<exists>pre ev. tr = pre @ [ev] \<and> (\<forall>x \<in> set pre. good x) \<and> \<not> good ev
                    \<and> e = raised_by ev))"

text \<open>
  What the provider answers to a sequence of calls made one after the other from the
  state \<open>p\<close>, and the state it ends in.
\<close>

fun answers :: "'p provider \<Rightarrow> 'p \<Rightarrow> call list \<Rightarrow> event list \<times> 'p" where
  "answers prov p [] = ([], p)"
| "answers prov p (c # cs) =
     (case prov c p of (out, p1) \<Rightarrow>
        (case answers prov p1 cs of (evs, p2) \<Rightarrow> ((c, out) # evs, p2)))"

text \<open>
  \<open>faithful prov m\<close>: the outcomes a run of \<open>m\<close> records are the provider's answers to
  its calls, and the run leaves the provider in the state these calls lead to.
\<close>

definition faithful :: "'p provider \<Rightarrow> ('a, 'p) prog \<Rightarrow> bool" where
  "faithful prov m = (\<forall>p r tr p'. m p = (r, tr, p') \<longrightarrow> answers prov p (map fst tr) = (tr, p'))"

text \<open>A provider for examples that accepts every call and has nothing to list.\<close>

fun accepting :: "nat provider" where
  "accepting c n =
     (Inr (case c of
             CreateVpc _ \<Rightarrow> Created ''vpc-1''
           | CreateInternetGateway \<Rightarrow> Created ''igw-1''
           | CreateSubnet _ _ _ \<Rightarrow> Created ''subnet-1''
           | CreateRouteTable _ \<Rightarrow> Created ''rtb-1''
           | SubnetsAll _ \<Rightarrow> SubnetList []
           | InternetGatewaysAll _ \<Rightarrow> InternetGatewayList []
           | RouteTablesAll _ \<Rightarrow> RouteTableList []
           | _ \<Rightarrow> Done),
      Suc n)"

section \<open>Rules for runs\<close>

lemma ensuresD: "ensures m Q \<Longrightarrow> m p = (r, tr, p') \<Longrightarrow> Q r tr"
  unfolding ensures_def by blast

lemma ensures_return: "Q (Inr x) [] \<Longrightarrow> ensures (return_val x) Q"
  by (simp add: ensures_def return_val_def)

lemma ensures_raise: "Q (Inl e) [] \<Longrightarrow> ensures (raise e) Q"
  by (simp add: ensures_def raise_def)

lemma ensures_and_then:
  assumes "ensures m P"
    and "\<And>e tr. P (Inl e) tr \<Longrightarrow> Q (Inl e) tr"
    and "\<And>x tr. P (Inr x) tr \<Longrightarrow> ensures (f x) (\<lambda>r tr'. Q r (tr @ tr'))"
  shows "ensures (and_then m f) Q"
  unfolding ensures_def
proof (intro allI impI)
  fix p r tr p'
  assume run: "and_then m f p = (r, tr, p')"
  obtain r1 tr1 p1 where m: "m p = (r1, tr1, p1)"
    by (cases "m p") auto
  with assms(1) have P: "P r1 tr1"
    unfolding ensures_def by blast
  show "Q r tr"
  proof (cases r1)
    case (Inl e)
    with run m have "r = Inl e" "tr = tr1"
      by (simp_all add: and_then_def)
    with P Inl assms(2) show ?thesis by simp
  next
    case (Inr x)
    obtain r2 tr2 p2 where f: "f x p1 = (r2, tr2, p2)"
      by (cases "f x p1") auto
    with run m Inr have "r = r2" "tr = tr1 @ tr2"
      by (simp_all add: and_then_def)
    moreover from assms(3) [of x tr1] P Inr f have "Q r2 (tr1 @ tr2)"
      unfolding ensures_def by blast
    ultimately show ?thesis by simp
  qed
qed

lemma ensures_invoke:
  "(\<And>out. Q out [(c, out)]) \<Longrightarrow> ensures (invoke prov c) Q"
  by (auto simp: ensures_def invoke_def split: prod.splits)

lemma ensures_action:
  assumes "\<And>e. Q (Inl e) [(c, Inl e)]" and "\<And>rep. Q (Inr ()) [(c, Inr rep)]"
  shows "ensures (action prov c) Q"
  unfolding action_def
  by (rule ensures_and_then [where P = "\<lambda>r tr. tr = [(c, r)]"])
     (auto intro!: ensures_invoke ensures_return assms)

lemma ensures_create:
  assumes "\<And>e. Q (Inl e) [(c, Inl e)]"
    and "\<And>i. Q (Inr i) [(c, Inr (Created i))]"
    and "\<And>rep. \<forall>i. rep \<noteq> Created i \<Longrightarrow> Q (Inl MalformedReply) [(c, Inr rep)]"
  shows "ensures (create prov c) Q"
  unfolding create_def
  by (rule ensures_and_then [where P = "\<lambda>r tr. tr = [(c, r)]"])
     (auto intro!: ensures_invoke ensures_return ensures_raise assms split: reply.splits)

lemma ensures_then_action:
  assumes "\<And>e. Q (Inl e) [(c, Inl e)]"
    and "\<And>rep. ensures (f ()) (\<lambda>r tr. Q r ((c, Inr rep) # tr))"
  shows "ensures (and_then (action prov c) f) Q"
  by (rule ensures_and_then [where P = "\<lambda>r tr. \<exists>out. tr = [(c, out)] \<and> (\<forall>e. r = Inl e \<longrightarrow> out = Inl e) \<and> (\<forall>x. r = Inr x \<longrightarrow> (\<exists>rep. out = Inr rep))"])
     (auto intro!: ensures_action assms)

lemma ensures_then_create:
  assumes "\<And>e. Q (Inl e) [(c, Inl e)]"
    and "\<And>rep. \<forall>i. rep \<noteq> Created i \<Longrightarrow> Q (Inl MalformedReply) [(c, Inr rep)]"
    and "\<And>i. ensures (f i) (\<lambda>r tr. Q r ((c, Inr (Created i)) # tr))"
  shows "ensures (and_then (create prov c) f) Q"
  by (rule ensures_and_then [where P = "\<lambda>r tr. \<exists>out. tr = [(c, out)] \<and>
        (\<forall>e. r = Inl e \<longrightarrow> out = Inl e \<or> (e = MalformedReply \<and> (\<exists>rep. out = Inr rep \<and> (\<forall>i. rep \<noteq> Created i))))
        \<and> (\<forall>x. r = Inr x \<longrightarrow> out = Inr (Created x))"])
     (auto intro!: ensures_create assms)

lemma and_then_return [simp]: "and_then (return_val x) f = f x"
  by (auto simp: and_then_def return_val_def fun_eq_iff split: prod.splits)

lemma and_then_assoc: "and_then (and_then m f) g = and_then m (\<lambda>x. and_then (f x) g)"
  by (auto simp: and_then_def fun_eq_iff split: prod.splits sum.splits)

subsection \<open>An exception ends the run\<close>

lemma fail_stop_Nil [simp]: "fail_stop r []"
  by (simp add: fail_stop_def)

lemma fail_stop_single_ok [simp]: "fail_stop r [(c, Inr x)]"
  by (auto simp: fail_stop_def Cons_eq_append_conv)

lemma fail_stop_single_fail [simp]: "fail_stop r [(c, Inl e)] \<longleftrightarrow> r = Inl e"
  by (auto simp: fail_stop_def Cons_eq_append_conv)

lemma fail_stop_append:
  assumes "fail_stop (Inr x) tr1" "fail_stop r tr2"
  shows "fail_stop r (tr1 @ tr2)"
  unfolding fail_stop_def
proof (intro allI impI)
  fix pre c e post
  assume eq: "tr1 @ tr2 = pre @ (c, Inl e) # post"
  then consider us where "tr1 = pre @ (c, Inl e) # us" | us where "tr2 = us @ (c, Inl e) # post"
    by (auto simp: append_eq_append_conv2 append_eq_Cons_conv Cons_eq_append_conv)
  then show "post = [] \<and> r = Inl e"
  proof cases
    case 1 then show ?thesis using assms(1) by (auto simp: fail_stop_def)
  next
    case 2 then show ?thesis using assms(2) by (auto simp: fail_stop_def)
  qed
qed

lemma fail_stopD:
  assumes "fail_stop r tr" and "tr = pre @ (c, Inl e) # post"
  shows "post = [] \<and> r = Inl e"
  using assms(1) [unfolded fail_stop_def, rule_format, OF assms(2)] .

lemma ensures_fail_stop_and_then:
  assumes "ensures m fail_stop" and "\<And>x. ensures (f x) fail_stop"
  shows "ensures (and_then m f) fail_stop"
proof (rule ensures_and_then [OF assms(1)], goal_cases)
  case (1 e tr)
  then show ?case by (simp add: fail_stop_def)
next
  case (2 x tr)
  show ?case
    unfolding ensures_def
  proof (intro allI impI)
    fix p r tra p'
    assume "f x p = (r, tra, p')"
    then have "fail_stop r tra"
      by (rule ensuresD [OF assms(2)])
    with 2 show "fail_stop r (tr @ tra)"
      by (rule fail_stop_append)
  qed
qed

lemma ensures_fail_stop_invoke: "ensures (invoke prov c) fail_stop"
  by (rule ensures_invoke) (case_tac out, simp_all)

lemma ensures_fail_stop_return: "ensures (return_val x) fail_stop"
  by (rule ensures_return) simp

lemma ensures_fail_stop_raise: "ensures (raise e) fail_stop"
  by (rule ensures_raise) simp

lemma ensures_fail_stop_action: "ensures (action prov c) fail_stop"
  by (rule ensures_action) simp_all

lemma ensures_fail_stop_create: "ensures (create prov c) fail_stop"
  by (rule ensures_create) simp_all

lemma ensures_fail_stop_subnets_all: "ensures (subnets_all prov v) fail_stop"
  unfolding subnets_all_def
  by (intro ensures_fail_stop_and_then ensures_fail_stop_invoke)
     (simp add: ensures_fail_stop_return ensures_fail_stop_raise split: reply.splits)

lemma ensures_fail_stop_internet_gateways_all: "ensures (internet_gateways_all prov v) fail_stop"
  unfolding internet_gateways_all_def
  by (intro ensures_fail_stop_and_then ensures_fail_stop_invoke)
     (simp add: ensures_fail_stop_return ensures_fail_stop_raise split: reply.splits)

lemma ensures_fail_stop_route_tables_all: "ensures (route_tables_all prov v) fail_stop"
  unfolding route_tables_all_def
  by (intro ensures_fail_stop_and_then ensures_fail_stop_invoke)
     (simp add: ensures_fail_stop_return ensures_fail_stop_raise split: reply.splits)

lemma ensures_fail_stop_for_each:
  assumes "\<And>x. ensures (body x) fail_stop"
  shows "ensures (for_each xs body) fail_stop"
  by (induction xs) (auto intro!: ensures_fail_stop_and_then ensures_fail_stop_return assms)

lemmas fail_stop_intros =
  ensures_fail_stop_and_then ensures_fail_stop_for_each ensures_fail_stop_action
  ensures_fail_stop_create ensures_fail_stop_subnets_all ensures_fail_stop_internet_gateways_all
  ensures_fail_stop_route_tables_all ensures_fail_stop_return ensures_fail_stop_raise

lemma cleanup_vpc_fail_stop: "ensures (cleanup_vpc prov v) fail_stop"
  unfolding cleanup_vpc_def
  by (intro fail_stop_intros) (simp_all add: fail_stop_intros)

lemma create_vpc_fail_stop: "ensures (create_vpc prov) fail_stop"
  unfolding create_vpc_def
  by (intro fail_stop_intros)

lemma create_subnet_fail_stop: "ensures (create_subnet prov v c a n b) fail_stop"
  unfolding create_subnet_def
  by (intro fail_stop_intros) (simp_all add: fail_stop_intros)

lemmas run_defs = create_def action_def invoke_def and_then_def return_val_def raise_def

lemmas listing_defs = subnets_all_def internet_gateways_all_def route_tables_all_def

section \<open>Route tables\<close>

lemma create_route_table_ensures:
  "ensures (create_route_table prov vpc name igw subnet) (\<lambda>r tr.
       (\<forall>rt. r = Inr rt \<longrightarrow>
            map fst tr = [CreateRouteTable vpc, CreateTags rt [(''Name'', name)]]
              @ (case igw of Some g \<Rightarrow> [CreateRoute rt ''0.0.0.0/0'' g] | None \<Rightarrow> [])
              @ (case subnet of Some s \<Rightarrow> [AssociateWithSubnet rt s] | None \<Rightarrow> []))
       \<and> (\<forall>a d g. CreateRoute a d g \<in> fst ` set tr \<longrightarrow> d = ''0.0.0.0/0'' \<and> igw = Some g)
       \<and> (\<forall>a s. AssociateWithSubnet a s \<in> fst ` set tr \<longrightarrow> subnet = Some s))"
  unfolding create_route_table_def
  by (cases igw; cases subnet)
     (auto intro!: ensures_then_create ensures_then_action ensures_return)

lemma public_route_table_run:
  "create_route_table scripted ''vpc-1'' ''tutorial-public-rt'' (Some ''igw-1'') (Some ''subnet-1'')
     [Inr (Created ''rtb-1''), Inr Done, Inr Done, Inr Done] =
   (Inr ''rtb-1'',
    [(CreateRouteTable ''vpc-1'', Inr (Created ''rtb-1'')),
     (CreateTags ''rtb-1'' [(''Name'', ''tutorial-public-rt'')], Inr Done),
     (CreateRoute ''rtb-1'' ''0.0.0.0/0'' ''igw-1'', Inr Done),
     (AssociateWithSubnet ''rtb-1'' ''subnet-1'', Inr Done)],
    [])"
  by (simp add: create_route_table_def run_defs)

section \<open>Creation\<close>

lemma create_vpc_first_call:
  "ensures (create_vpc prov) (\<lambda>r tr.
     \<exists>out rest. tr = (CreateVpc ''10.0.0.0/16'', out) # rest
         \<and> (\<forall>v. r = Inr v \<longrightarrow> out = Inr (Created v)))"
  unfolding create_vpc_def
  by (auto intro!: ensures_then_create ensures_then_action ensures_return)

lemma create_vpc_no_lookup:
  "ensures (create_vpc prov) (\<lambda>r tr. \<forall>c \<in> fst ` set tr. \<not> is_lookup c)"
  unfolding create_vpc_def
  by (auto intro!: ensures_then_create ensures_then_action ensures_return simp: is_lookup_def)

lemma create_subnet_first_call:
  "ensures (create_subnet prov vpc cidr az name pub) (\<lambda>r tr.
     \<exists>out rest. tr = (CreateSubnet vpc cidr az, out) # rest
         \<and> (\<forall>s. r = Inr s \<longrightarrow> out = Inr (Created s)))"
  unfolding create_subnet_def
  by (cases pub)
     (auto intro!: ensures_then_create ensures_then_action ensures_return)

lemma create_subnet_no_lookup:
  "ensures (create_subnet prov vpc cidr az name pub) (\<lambda>r tr.
     \<forall>c \<in> fst ` set tr. \<not> is_lookup c)"
  unfolding create_subnet_def
  by (cases pub)
     (auto intro!: ensures_then_create ensures_then_action ensures_return simp: is_lookup_def)

lemma create_subnet_rejection:
  "ensures (create_subnet prov vpc cidr az name pub) (\<lambda>r tr.
     (\<exists>out rest. tr = (CreateSubnet vpc cidr az, out) # rest
         \<and> (\<forall>e. out = Inl e \<longrightarrow> r = Inl e \<and> rest = []))
     \<and> (\<forall>e. r = Inl e \<longrightarrow> e = MalformedReply \<or> (\<exists>c. (c, Inl e) \<in> set tr)))"
  unfolding create_subnet_def
  by (cases pub)
     (auto intro!: ensures_then_create ensures_then_action ensures_return)

lemma create_vpc_run:
  "create_vpc scripted [Inr (Created ''vpc-2''), Inr Done, Inr Done, Inr Done] =
   (Inr ''vpc-2'',
    [(CreateVpc ''10.0.0.0/16'', Inr (Created ''vpc-2'')),
     (CreateTags ''vpc-2'' [(''Name'', ''tutorial-vpc'')], Inr Done),
     (WaitUntilAvailable ''vpc-2'', Inr Done),
     (ModifyVpcAttribute ''vpc-2'' True, Inr Done)],
    [])"
  by (simp add: create_vpc_def run_defs)

lemma create_vpc_tagging_fails_run:
  "create_vpc scripted [Inr (Created ''vpc-1''), Inl (ClientError ''RequestLimitExceeded'')] =
   (Inl (ClientError ''RequestLimitExceeded''),
    [(CreateVpc ''10.0.0.0/16'', Inr (Created ''vpc-1'')),
     (CreateTags ''vpc-1'' [(''Name'', ''tutorial-vpc'')], Inl (ClientError ''RequestLimitExceeded''))],
    [])"
  by (simp add: create_vpc_def run_defs)

lemma create_subnet_run:
  "create_subnet scripted ''vpc-1'' ''10.0.1.0/24'' ''us-east-2a'' ''tutorial-public-subnet-1'' True
     [Inr (Created ''subnet-9''), Inr Done, Inr Done] =
   (Inr ''subnet-9'',
    [(CreateSubnet ''vpc-1'' ''10.0.1.0/24'' ''us-east-2a'', Inr (Created ''subnet-9'')),
     (CreateTags ''subnet-9'' [(''Name'', ''tutorial-public-subnet-1'')], Inr Done),
     (ModifySubnetAttribute ''subnet-9'' True, Inr Done)],
    [])"
  by (simp add: create_subnet_def run_defs)

lemma overlapping_subnet_run:
  "create_subnet scripted ''vpc-1'' ''10.0.1.0/25'' ''us-east-2a'' ''tutorial-public-subnet-3'' True
     [Inl (ClientError ''InvalidSubnet.Conflict'')] =
   (Inl (ClientError ''InvalidSubnet.Conflict''),
    [(CreateSubnet ''vpc-1'' ''10.0.1.0/25'' ''us-east-2a'',
      Inl (ClientError ''InvalidSubnet.Conflict''))],
    [])"
  by (simp add: create_subnet_def run_defs)

text \<open>
  Claim C1, as the code has it. \<open>create_vpc\<close> and \<open>create_subnet\<close> look nothing up:
  the first call of every run is the provider's create call (\<open>CreateVpc\<close> with
  \<open>10.0.0.0/16\<close>, \<open>CreateSubnet\<close> with the VPC, CIDR and zone given), no call of the
  run is a lookup, and a run that returns, returns the id this create call replied.
\<close>

theorem creation_never_looks_up:
  assumes "create_vpc prov p = (r, tr, p')"
    and "create_subnet prov vpc cidr az name pub q = (r2, tr2, q')"
  shows "(\<exists>out rest. tr = (CreateVpc ''10.0.0.0/16'', out) # rest
            \<and> (\<forall>v. r = Inr v \<longrightarrow> out = Inr (Created v)))
       \<and> (\<exists>out rest. tr2 = (CreateSubnet vpc cidr az, out) # rest
            \<and> (\<forall>s. r2 = Inr s \<longrightarrow> out = Inr (Created s)))
       \<and> (\<forall>c \<in> fst ` set tr \<union> fst ` set tr2. \<not> is_lookup c)"
proof (intro conjI)
  show "\<exists>out rest. tr = (CreateVpc ''10.0.0.0/16'', out) # rest
          \<and> (\<forall>v. r = Inr v \<longrightarrow> out = Inr (Created v))"
    by (rule ensuresD [OF create_vpc_first_call assms(1)])
  show "\<exists>out rest. tr2 = (CreateSubnet vpc cidr az, out) # rest
          \<and> (\<forall>s. r2 = Inr s \<longrightarrow> out = Inr (Created s))"
    by (rule ensuresD [OF create_subnet_first_call assms(2)])
  show "\<forall>c \<in> fst ` set tr \<union> fst ` set tr2. \<not> is_lookup c"
    using ensuresD [OF create_vpc_no_lookup assms(1)]
      ensuresD [OF create_subnet_no_lookup assms(2)]
    by (simp add: ball_Un)
qed

theorem creation_never_looks_up_witness:
  "create_vpc scripted [Inr (Created ''vpc-2''), Inr Done, Inr Done, Inr Done] =
   (Inr ''vpc-2'',
    [(CreateVpc ''10.0.0.0/16'', Inr (Created ''vpc-2'')),
     (CreateTags ''vpc-2'' [(''Name'', ''tutorial-vpc'')], Inr Done),
     (WaitUntilAvailable ''vpc-2'', Inr Done),
     (ModifyVpcAttribute ''vpc-2'' True, Inr Done)],
    [])
   \<and> create_subnet scripted ''vpc-1'' ''10.0.1.0/24'' ''us-east-2a'' ''tutorial-public-subnet-1'' True
     [Inr (Created ''subnet-9''), Inr Done, Inr Done] =
   (Inr ''subnet-9'',
    [(CreateSubnet ''vpc-1'' ''10.0.1.0/24'' ''us-east-2a'', Inr (Created ''subnet-9'')),
     (CreateTags ''subnet-9'' [(''Name'', ''tutorial-public-subnet-1'')], Inr Done),
     (ModifySubnetAttribute ''subnet-9'' True, Inr Done)],
    [])
   \<and> \<not> is_lookup (CreateVpc ''10.0.0.0/16'')
   \<and> \<not> is_lookup (CreateSubnet ''vpc-1'' ''10.0.1.0/24'' ''us-east-2a'')"
  using creation_never_looks_up [OF create_vpc_run create_subnet_run]
    create_vpc_run create_subnet_run
  by simp

text \<open>
  Claim C1 as stated fails: run \<open>create_vpc\<close> a second time against the same provider,
  with the VPC of the first run in place, and it issues \<open>CreateVpc\<close> again and returns
  the second VPC; the first one is not adopted.
\<close>

theorem rerun_creates_again:
  "and_then (create_vpc scripted) (\<lambda>first.
   and_then (create_vpc scripted) (\<lambda>second. return_val (first, second)))
     [Inr (Created ''vpc-1''), Inr Done, Inr Done, Inr Done,
      Inr (Created ''vpc-2''), Inr Done, Inr Done, Inr Done] =
   (Inr (''vpc-1'', ''vpc-2''),
    [(CreateVpc ''10.0.0.0/16'', Inr (Created ''vpc-1'')),
     (CreateTags ''vpc-1'' [(''Name'', ''tutorial-vpc'')], Inr Done),
     (WaitUntilAvailable ''vpc-1'', Inr Done),
     (ModifyVpcAttribute ''vpc-1'' True, Inr Done),
     (CreateVpc ''10.0.0.0/16'', Inr (Created ''vpc-2'')),
     (CreateTags ''vpc-2'' [(''Name'', ''tutorial-vpc'')], Inr Done),
     (WaitUntilAvailable ''vpc-2'', Inr Done),
     (ModifyVpcAttribute ''vpc-2'' True, Inr Done)],
    [])"
  by (simp add: create_vpc_def run_defs)

text \<open>
  Claim C6, as the code has it. \<open>create_subnet\<close> checks no CIDR itself: whatever the
  CIDR, the first thing a run does is the provider's \<open>CreateSubnet\<close> call with that
  CIDR. A run raises only what a provider call raised (or \<open>MalformedReply\<close>), and
  when the create call raises, the run ends there with that exception.
\<close>

theorem create_subnet_asks_provider_first:
  assumes "create_subnet prov vpc cidr az name pub p = (r, tr, p')"
  shows "(\<exists>out rest. tr = (CreateSubnet vpc cidr az, out) # rest
            \<and> (\<forall>e. out = Inl e \<longrightarrow> r = Inl e \<and> rest = []))
       \<and> (\<forall>e. r = Inl e \<longrightarrow> e = MalformedReply \<or> (\<exists>c. (c, Inl e) \<in> set tr))"
  by (rule ensuresD [OF create_subnet_rejection assms])

theorem create_subnet_asks_provider_first_witness:
  "create_subnet scripted ''vpc-1'' ''10.0.1.0/25'' ''us-east-2a'' ''tutorial-public-subnet-3'' True
     [Inl (ClientError ''InvalidSubnet.Conflict'')] =
   (Inl (ClientError ''InvalidSubnet.Conflict''),
    [(CreateSubnet ''vpc-1'' ''10.0.1.0/25'' ''us-east-2a'',
      Inl (ClientError ''InvalidSubnet.Conflict''))],
    [])
   \<and> (\<exists>out rest.
        [(CreateSubnet ''vpc-1'' ''10.0.1.0/25'' ''us-east-2a'',
          Inl (ClientError ''InvalidSubnet.Conflict''))]
        = (CreateSubnet ''vpc-1'' ''10.0.1.0/25'' ''us-east-2a'', out) # rest)"
  using create_subnet_asks_provider_first [OF overlapping_subnet_run] overlapping_subnet_run
  by simp

text \<open>
  Claim C6 as stated fails: in a VPC \<open>10.0.0.0/16\<close> that holds \<open>10.0.1.0/24\<close>, the
  request for \<open>10.0.1.0/25\<close> is sent to the provider; the rejection is the provider's
  answer to that call, not something that happens before it.
\<close>

theorem overlapping_subnet_reaches_provider:
  "fst (snd (create_subnet scripted ''vpc-1'' ''10.0.1.0/25'' ''us-east-2a''
       ''tutorial-public-subnet-3'' True [Inl (ClientError ''InvalidSubnet.Conflict'')]))
   = [(CreateSubnet ''vpc-1'' ''10.0.1.0/25'' ''us-east-2a'',
       Inl (ClientError ''InvalidSubnet.Conflict''))]"
  by (simp add: overlapping_subnet_run)

section \<open>Failures during cleanup\<close>

lemma absent_vpc_run:
  "cleanup_vpc scripted ''vpc-1''
     [Inr (SubnetList []), Inr (InternetGatewayList []), Inr (RouteTableList []),
      Inl (ClientError ''InvalidVpcID.NotFound'')] =
   (Inl (ClientError ''InvalidVpcID.NotFound''),
    [(SubnetsAll ''vpc-1'', Inr (SubnetList [])),
     (InternetGatewaysAll ''vpc-1'', Inr (InternetGatewayList [])),
     (RouteTablesAll ''vpc-1'', Inr (RouteTableList [])),
     (DeleteVpc ''vpc-1'', Inl (ClientError ''InvalidVpcID.NotFound''))],
    [])"
  by (simp add: cleanup_vpc_def listing_defs run_defs)

lemma subnet_in_use_run:
  "cleanup_vpc scripted ''vpc-1''
     [Inr (SubnetList [\<lparr>subnet_id = ''subnet-1'', subnet_tags = Some []\<rparr>,
                       \<lparr>subnet_id = ''subnet-2'', subnet_tags = Some []\<rparr>]),
      Inl (ClientError ''DependencyViolation''),
      Inr Done, Inr (InternetGatewayList []), Inr (RouteTableList []), Inr Done] =
   (Inl (ClientError ''DependencyViolation''),
    [(SubnetsAll ''vpc-1'',
      Inr (SubnetList [\<lparr>subnet_id = ''subnet-1'', subnet_tags = Some []\<rparr>,
                       \<lparr>subnet_id = ''subnet-2'', subnet_tags = Some []\<rparr>])),
     (DeleteSubnet ''subnet-1'', Inl (ClientError ''DependencyViolation''))],
    [Inr Done, Inr (InternetGatewayList []), Inr (RouteTableList []), Inr Done])"
  by (simp add: cleanup_vpc_def listing_defs run_defs)

text \<open>
  Claim C5, as the code has it. \<open>cleanup_vpc\<close> never looks at an error code: a
  \<open>ClientError\<close> raised by any of its calls, the not-found codes of an absent resource
  included, is the last call of the run and is raised to the caller unchanged.
\<close>

theorem client_error_is_raised_unchanged:
  assumes "cleanup_vpc prov v p = (r, tr, p')"
    and "(c, Inl (ClientError code)) \<in> set tr"
  shows "r = Inl (ClientError code) \<and> last tr = (c, Inl (ClientError code))"
proof -
  from assms(2) obtain pre post where tr: "tr = pre @ (c, Inl (ClientError code)) # post"
    by (auto simp: in_set_conv_decomp)
  have "post = [] \<and> r = Inl (ClientError code)"
    by (rule fail_stopD [OF ensuresD [OF cleanup_vpc_fail_stop assms(1)] tr])
  with tr show ?thesis by simp
qed

theorem client_error_is_raised_unchanged_witness:
  "cleanup_vpc scripted ''vpc-1''
     [Inr (SubnetList []), Inr (InternetGatewayList []), Inr (RouteTableList []),
      Inl (ClientError ''InvalidVpcID.NotFound'')] =
   (Inl (ClientError ''InvalidVpcID.NotFound''),
    [(SubnetsAll ''vpc-1'', Inr (SubnetList [])),
     (InternetGatewaysAll ''vpc-1'', Inr (InternetGatewayList [])),
     (RouteTablesAll ''vpc-1'', Inr (RouteTableList [])),
     (DeleteVpc ''vpc-1'', Inl (ClientError ''InvalidVpcID.NotFound''))],
    [])
   \<and> (DeleteVpc ''vpc-1'', Inl (ClientError ''InvalidVpcID.NotFound''))
       \<in> set [(SubnetsAll ''vpc-1'', Inr (SubnetList [])),
              (InternetGatewaysAll ''vpc-1'', Inr (InternetGatewayList [])),
              (RouteTablesAll ''vpc-1'', Inr (RouteTableList [])),
              (DeleteVpc ''vpc-1'', Inl (ClientError ''InvalidVpcID.NotFound''))]"
  using client_error_is_raised_unchanged [OF absent_vpc_run] absent_vpc_run
  by simp

text \<open>
  Claim C5 as stated fails: clean up a VPC that is already gone. The listings are empty,
  the provider answers the delete with its not-found error, and \<open>cleanup_vpc\<close> raises
  that error instead of reporting success.
\<close>

theorem deleting_absent_vpc_raises:
  "fst (cleanup_vpc scripted ''vpc-1''
     [Inr (SubnetList []), Inr (InternetGatewayList []), Inr (RouteTableList []),
      Inl (ClientError ''InvalidVpcID.NotFound'')])
   = Inl (ClientError ''InvalidVpcID.NotFound'')"
  by (simp add: absent_vpc_run)

section \<open>The shape of a cleanup\<close>

lemma ensures_weaken:
  assumes "ensures m P" and "\<And>r tr. P r tr \<Longrightarrow> Q r tr"
  shows "ensures m Q"
  using assms unfolding ensures_def by blast

lemma and_then_raise [simp]: "and_then (raise e) f = raise e"
  by (auto simp: and_then_def raise_def fun_eq_iff)

lemma perform_Nil [simp]: "perform prov [] = return_val ()"
  by (simp add: perform_def)

lemma perform_Cons [simp]: "perform prov (c # cs) = and_then (action prov c) (\<lambda>_. perform prov cs)"
  by (simp add: perform_def)

lemma and_then_unit_return [simp]: "and_then m (\<lambda>_::unit. return_val ()) = m"
  by (auto simp: and_then_def return_val_def fun_eq_iff split: prod.splits sum.splits)

lemma for_each_action: "for_each xs (\<lambda>x. action prov (f x)) = perform prov (map f xs)"
  by (induction xs) simp_all

lemma for_each_two_actions:
  "for_each xs (\<lambda>x. and_then (action prov (f x)) (\<lambda>_. action prov (g x)))
     = perform prov (concat (map (\<lambda>x. [f x, g x]) xs))"
  by (induction xs) (simp_all add: and_then_assoc)

lemma for_each_guarded_action:
  "for_each xs (\<lambda>x. if P x then action prov (f x) else return_val ())
     = perform prov (map f (filter P xs))"
  by (induction xs) simp_all

lemma quietI: "prefix (map fst tr) cs \<Longrightarrow> \<forall>c \<in> set cs. \<not> is_lookup c \<Longrightarrow> quiet tr"
  unfolding quiet_def using set_mono_prefix [of "map fst tr" cs] by auto

lemma ensures_perform:
  "ensures (perform prov cs) (\<lambda>r tr. prefix (map fst tr) cs \<and> (r = Inr () \<longrightarrow> map fst tr = cs))"
proof (induction cs)
  case Nil
  show ?case by (simp add: ensures_return)
next
  case (Cons c cs)
  show ?case
    unfolding perform_Cons
  proof (rule ensures_then_action, goal_cases)
    case (1 e)
    show ?case by simp
  next
    case (2 rep)
    show ?case by (rule ensures_weaken [OF Cons.IH]) simp
  qed
qed

lemma ensures_then_perform:
  assumes "\<forall>c \<in> set cs. \<not> is_lookup c"
    and "\<And>e tr. prefix (map fst tr) cs \<Longrightarrow> quiet tr \<Longrightarrow> Q (Inl e) tr"
    and "\<And>tr. map fst tr = cs \<Longrightarrow> quiet tr \<Longrightarrow> ensures (f ()) (\<lambda>r tr'. Q r (tr @ tr'))"
  shows "ensures (and_then (perform prov cs) f) Q"
proof (rule ensures_and_then [OF ensures_perform], goal_cases)
  case (1 e tr)
  then show ?case using assms(1,2) quietI by blast
next
  case (2 x tr)
  then have "map fst tr = cs" by simp
  moreover from this have "quiet tr" using quietI [of tr cs] assms(1) by simp
  ultimately show ?case using assms(3) by simp
qed

lemma listed_Nil [simp]:
  "listed_subnets [] = []" "listed_gateways [] = []" "listed_route_tables [] = []"
  by (simp_all add: listed_subnets_def listed_gateways_def listed_route_tables_def)

lemma listed_Cons [simp]:
  "listed_subnets (ev # tr) = subnets_in ev @ listed_subnets tr"
  "listed_gateways (ev # tr) = gateways_in ev @ listed_gateways tr"
  "listed_route_tables (ev # tr) = route_tables_in ev @ listed_route_tables tr"
  by (simp_all add: listed_subnets_def listed_gateways_def listed_route_tables_def)

lemma listed_append [simp]:
  "listed_subnets (tr @ tr') = listed_subnets tr @ listed_subnets tr'"
  "listed_gateways (tr @ tr') = listed_gateways tr @ listed_gateways tr'"
  "listed_route_tables (tr @ tr') = listed_route_tables tr @ listed_route_tables tr'"
  by (simp_all add: listed_subnets_def listed_gateways_def listed_route_tables_def)

lemma not_lookup_in [simp]:
  "\<not> is_lookup c \<Longrightarrow> subnets_in (c, out) = []"
  "\<not> is_lookup c \<Longrightarrow> gateways_in (c, out) = []"
  "\<not> is_lookup c \<Longrightarrow> route_tables_in (c, out) = []"
  by (cases c; simp add: is_lookup_def)+

lemma quiet_listed [simp]:
  assumes "quiet tr"
  shows "listed_subnets tr = []" "listed_gateways tr = []" "listed_route_tables tr = []"
  using assms by (induction tr; auto simp: quiet_def)+

lemma ensures_then_subnets_all:
  assumes "\<And>e. Q (Inl e) [(SubnetsAll v, Inl e)]"
    and "\<And>rep. \<forall>l. rep \<noteq> SubnetList l \<Longrightarrow> Q (Inl MalformedReply) [(SubnetsAll v, Inr rep)]"
    and "\<And>l. ensures (f l) (\<lambda>r tr. Q r ((SubnetsAll v, Inr (SubnetList l)) # tr))"
  shows "ensures (and_then (subnets_all prov v) f) Q"
  unfolding subnets_all_def and_then_assoc
  by (rule ensures_and_then [where P = "\<lambda>r tr. tr = [(SubnetsAll v, r)]"])
     (auto intro!: ensures_invoke ensures_raise assms split: reply.splits)

lemma ensures_then_internet_gateways_all:
  assumes "\<And>e. Q (Inl e) [(InternetGatewaysAll v, Inl e)]"
    and "\<And>rep. \<forall>l. rep \<noteq> InternetGatewayList l \<Longrightarrow> Q (Inl MalformedReply) [(InternetGatewaysAll v, Inr rep)]"
    and "\<And>l. ensures (f l) (\<lambda>r tr. Q r ((InternetGatewaysAll v, Inr (InternetGatewayList l)) # tr))"
  shows "ensures (and_then (internet_gateways_all prov v) f) Q"
  unfolding internet_gateways_all_def and_then_assoc
  by (rule ensures_and_then [where P = "\<lambda>r tr. tr = [(InternetGatewaysAll v, r)]"])
     (auto intro!: ensures_invoke ensures_raise assms split: reply.splits)

lemma ensures_then_route_tables_all:
  assumes "\<And>e. Q (Inl e) [(RouteTablesAll v, Inl e)]"
    and "\<And>rep. \<forall>l. rep \<noteq> RouteTableList l \<Longrightarrow> Q (Inl MalformedReply) [(RouteTablesAll v, Inr rep)]"
    and "\<And>l. ensures (f l) (\<lambda>r tr. Q r ((RouteTablesAll v, Inr (RouteTableList l)) # tr))"
  shows "ensures (and_then (route_tables_all prov v) f) Q"
  unfolding route_tables_all_def and_then_assoc
  by (rule ensures_and_then [where P = "\<lambda>r tr. tr = [(RouteTablesAll v, r)]"])
     (auto intro!: ensures_invoke ensures_raise assms split: reply.splits)

lemma cleanup_vpc_performs:
  "cleanup_vpc prov v =
     and_then (subnets_all prov v) (\<lambda>S.
     and_then (perform prov (map (\<lambda>s. DeleteSubnet (subnet_id s)) S)) (\<lambda>_.
     and_then (internet_gateways_all prov v) (\<lambda>G.
     and_then (perform prov (concat (map (\<lambda>g. [DetachInternetGateway v (igw_id g),
                                                DeleteInternetGateway (igw_id g)]) G))) (\<lambda>_.
     and_then (route_tables_all prov v) (\<lambda>R.
     and_then (perform prov (map (\<lambda>t. DeleteRouteTable (rt_id t)) (filter not_main R))) (\<lambda>_.
     action prov (DeleteVpc v)))))))"
  unfolding cleanup_vpc_def
  by (simp add: for_each_action for_each_two_actions for_each_guarded_action)


lemma cleanup_vpc_shape:
  "ensures (cleanup_vpc prov v) (\<lambda>r tr.
     prefix (map fst tr)
       (cleanup_calls v (listed_subnets tr) (listed_gateways tr) (listed_route_tables tr))
     \<and> (r = Inr () \<longrightarrow> map fst tr =
          cleanup_calls v (listed_subnets tr) (listed_gateways tr) (listed_route_tables tr)))"
  unfolding cleanup_vpc_performs
  apply (intro ensures_then_subnets_all ensures_then_perform ensures_then_internet_gateways_all
               ensures_then_route_tables_all ensures_action)
  apply (simp_all add: cleanup_calls_def is_lookup_def)
  done

subsection \<open>Where a call stands among the calls of a cleanup\<close>

lemma not_main_iff: "not_main t \<longleftrightarrow> \<not> carries_main t"
  by (auto simp: not_main_def carries_main_def list_ex_iff split: option.splits)

lemma split_skip:
  assumes "xs @ c # ys = as @ bs" and "c \<notin> set as"
  shows "\<exists>us. xs = as @ us \<and> bs = us @ c # ys"
  using assms by (auto simp: append_eq_append_conv2 append_eq_Cons_conv Cons_eq_append_conv)

lemma split_skip_right:
  assumes "xs @ c # ys = as @ bs" and "c \<notin> set bs"
  shows "\<exists>ws. as = xs @ c # ws \<and> ys = ws @ bs"
  using assms by (auto simp: append_eq_append_conv2 append_eq_Cons_conv Cons_eq_append_conv)

lemma detach_then_delete:
  assumes "concat (map (\<lambda>g. [DetachInternetGateway v (igw_id g), DeleteInternetGateway (igw_id g)]) G)
           = xs @ DeleteInternetGateway i # ys"
  shows "\<exists>xs'. xs = xs' @ [DetachInternetGateway v i]"
  using assms
proof (induction G arbitrary: xs)
  case Nil
  then show ?case by simp
next
  case (Cons g G)
  show ?case
  proof (cases xs)
    case Nil
    with Cons.prems show ?thesis by simp
  next
    case xs: (Cons x xs1)
    show ?thesis
    proof (cases xs1)
      case Nil
      with xs Cons.prems show ?thesis by auto
    next
      case (Cons y xs2)
      with xs Cons.prems have "concat (map (\<lambda>g. [DetachInternetGateway v (igw_id g),
          DeleteInternetGateway (igw_id g)]) G) = xs2 @ DeleteInternetGateway i # ys"
        by simp
      from Cons.IH [OF this] obtain xs' where "xs2 = xs' @ [DetachInternetGateway v i]" ..
      with xs Cons show ?thesis by simp
    qed
  qed
qed

lemma cleanup_calls_detach_before_delete:
  assumes "cleanup_calls v S G R = xs @ DeleteInternetGateway i # ys"
  shows "\<exists>xs'. xs = xs' @ [DetachInternetGateway v i]"
proof -
  let ?A = "SubnetsAll v # map (\<lambda>s. DeleteSubnet (subnet_id s)) S @ [InternetGatewaysAll v]"
  let ?B = "concat (map (\<lambda>g. [DetachInternetGateway v (igw_id g), DeleteInternetGateway (igw_id g)]) G)"
  let ?C = "RouteTablesAll v # map (\<lambda>t. DeleteRouteTable (rt_id t)) (filter not_main R) @ [DeleteVpc v]"
  have eq: "xs @ DeleteInternetGateway i # ys = ?A @ (?B @ ?C)"
    using assms by (simp add: cleanup_calls_def)
  have "DeleteInternetGateway i \<notin> set ?A" by auto
  from split_skip [OF eq this] obtain us where us: "xs = ?A @ us" "?B @ ?C = us @ DeleteInternetGateway i # ys"
    by blast
  have "DeleteInternetGateway i \<notin> set ?C" by auto
  from split_skip_right [OF us(2) [symmetric] this]
  obtain ws where "?B = us @ DeleteInternetGateway i # ws"
    by blast
  from detach_then_delete [OF this] obtain xs' where "us = xs' @ [DetachInternetGateway v i]" ..
  with us(1) show ?thesis by simp
qed

lemma ok_before:
  assumes "fail_stop r tr" and "tr = pre @ ev # post" and "(c, out) \<in> set pre"
  shows "\<exists>rep. out = Inr rep"
proof (cases out)
  case (Inl e)
  with assms(3) obtain a b where "pre = a @ (c, Inl e) # b"
    by (auto simp: in_set_conv_decomp)
  with assms(2) have "tr = a @ (c, Inl e) # (b @ ev # post)" by simp
  from fail_stopD [OF assms(1) this] show ?thesis by simp
next
  case (Inr rep)
  then show ?thesis by simp
qed

lemma prefix_calls:
  assumes "prefix (map fst tr) cs" and "tr = pre @ (c, out) # post"
  shows "\<exists>zs. cs = map fst pre @ c # zs"
  using assms by (auto simp: prefix_def)

lemma calls_in_plan:
  assumes "prefix (map fst tr) cs" and "(c, out) \<in> set tr"
  shows "c \<in> set cs"
  using set_mono_prefix [OF assms(1)] assms(2) by force

lemma succeeded_before:
  assumes "fail_stop r tr" and "tr = pre @ ev # post" and "c \<in> set (map fst pre)"
  shows "\<exists>rep. (c, Inr rep) \<in> set pre"
proof -
  from assms(3) obtain out where "(c, out) \<in> set pre" by auto
  moreover from ok_before [OF assms(1,2) this] obtain rep where "out = Inr rep" ..
  ultimately show ?thesis by auto
qed

lemma delete_vpc_is_last:
  assumes "cleanup_calls v S G R = xs @ DeleteVpc v' # ys"
  shows "v' = v \<and> ys = [] \<and> xs =
     SubnetsAll v # map (\<lambda>s. DeleteSubnet (subnet_id s)) S
     @ InternetGatewaysAll v
       # concat (map (\<lambda>g. [DetachInternetGateway v (igw_id g), DeleteInternetGateway (igw_id g)]) G)
     @ RouteTablesAll v # map (\<lambda>t. DeleteRouteTable (rt_id t)) (filter not_main R)"
proof -
  let ?body = "SubnetsAll v # map (\<lambda>s. DeleteSubnet (subnet_id s)) S
     @ InternetGatewaysAll v
       # concat (map (\<lambda>g. [DetachInternetGateway v (igw_id g), DeleteInternetGateway (igw_id g)]) G)
     @ RouteTablesAll v # map (\<lambda>t. DeleteRouteTable (rt_id t)) (filter not_main R)"
  have eq: "xs @ DeleteVpc v' # ys = ?body @ [DeleteVpc v]"
    using assms by (simp add: cleanup_calls_def)
  have "DeleteVpc v' \<notin> set ?body" by auto
  from split_skip [OF eq this] obtain us where us: "xs = ?body @ us" "[DeleteVpc v] = us @ DeleteVpc v' # ys"
    by blast
  from us(2) have "us = [] \<and> v' = v \<and> ys = []"
    by (cases us) auto
  with us(1) show ?thesis by simp
qed

section \<open>Teardown order\<close>

lemma full_cleanup_run:
  "cleanup_vpc scripted ''vpc-1''
     [Inr (SubnetList [\<lparr>subnet_id = ''subnet-1'', subnet_tags = Some []\<rparr>]),
      Inr Done,
      Inr (InternetGatewayList [\<lparr>igw_id = ''igw-1'', igw_tags = Some []\<rparr>]),
      Inr Done, Inr Done,
      Inr (RouteTableList
        [\<lparr>rt_id = ''rtb-0'', rt_tags = Some [],
          associations_attribute = Some [\<lparr>assoc_main = Some True\<rparr>]\<rparr>,
         \<lparr>rt_id = ''rtb-1'', rt_tags = Some [], associations_attribute = Some []\<rparr>]),
      Inr Done, Inr Done] =
   (Inr (),
    [(SubnetsAll ''vpc-1'', Inr (SubnetList [\<lparr>subnet_id = ''subnet-1'', subnet_tags = Some []\<rparr>])),
     (DeleteSubnet ''subnet-1'', Inr Done),
     (InternetGatewaysAll ''vpc-1'',
      Inr (InternetGatewayList [\<lparr>igw_id = ''igw-1'', igw_tags = Some []\<rparr>])),
     (DetachInternetGateway ''vpc-1'' ''igw-1'', Inr Done),
     (DeleteInternetGateway ''igw-1'', Inr Done),
     (RouteTablesAll ''vpc-1'',
      Inr (RouteTableList
        [\<lparr>rt_id = ''rtb-0'', rt_tags = Some [],
          associations_attribute = Some [\<lparr>assoc_main = Some True\<rparr>]\<rparr>,
         \<lparr>rt_id = ''rtb-1'', rt_tags = Some [], associations_attribute = Some []\<rparr>])),
     (DeleteRouteTable ''rtb-1'', Inr Done),
     (DeleteVpc ''vpc-1'', Inr Done)],
    [])"
  by (simp add: cleanup_vpc_def listing_defs run_defs not_main_def)

text \<open>
  Claim C7. In every run of \<open>cleanup_vpc\<close>, a \<open>DeleteVpc\<close> call is the last call of
  the run and is for the VPC being cleaned up. Before it, the three listings have
  succeeded, and the provider has confirmed the delete of every subnet it listed, the
  detach and the delete of every gateway it listed, and the delete of every listed route
  table without a Main association.
\<close>

theorem vpc_is_deleted_last:
  assumes "cleanup_vpc prov v p = (r, tr, p')"
    and "tr = pre @ (DeleteVpc v', out) # post"
  shows "v' = v \<and> post = []
     \<and> (\<forall>c \<in> {SubnetsAll v, InternetGatewaysAll v, RouteTablesAll v}.
           \<exists>rep. (c, Inr rep) \<in> set pre)
     \<and> (\<forall>s \<in> set (listed_subnets pre). \<exists>rep. (DeleteSubnet (subnet_id s), Inr rep) \<in> set pre)
     \<and> (\<forall>g \<in> set (listed_gateways pre).
           (\<exists>rep. (DetachInternetGateway v (igw_id g), Inr rep) \<in> set pre)
         \<and> (\<exists>rep. (DeleteInternetGateway (igw_id g), Inr rep) \<in> set pre))
     \<and> (\<forall>t \<in> set (listed_route_tables pre). \<not> carries_main t \<longrightarrow>
           (\<exists>rep. (DeleteRouteTable (rt_id t), Inr rep) \<in> set pre))"
proof -
  let ?S = "listed_subnets tr" and ?G = "listed_gateways tr" and ?R = "listed_route_tables tr"
  note fs = ensuresD [OF cleanup_vpc_fail_stop assms(1)]
  from ensuresD [OF cleanup_vpc_shape assms(1)]
  have "prefix (map fst tr) (cleanup_calls v ?S ?G ?R)"
    by simp
  then obtain zs where "cleanup_calls v ?S ?G ?R = map fst pre @ DeleteVpc v' # (map fst post @ zs)"
    using assms(2) by (auto simp: prefix_def)
  from delete_vpc_is_last [OF this]
  have v: "v' = v" and post: "post = []" and pre: "map fst pre =
     SubnetsAll v # map (\<lambda>s. DeleteSubnet (subnet_id s)) ?S
     @ InternetGatewaysAll v
       # concat (map (\<lambda>g. [DetachInternetGateway v (igw_id g), DeleteInternetGateway (igw_id g)]) ?G)
     @ RouteTablesAll v # map (\<lambda>t. DeleteRouteTable (rt_id t)) (filter not_main ?R)"
    by simp_all
  have listed: "?S = listed_subnets pre" "?G = listed_gateways pre" "?R = listed_route_tables pre"
    using assms(2) post by simp_all
  have ok: "\<exists>rep. (c, Inr rep) \<in> set pre" if "c \<in> set (map fst pre)" for c
    using succeeded_before [OF fs assms(2) that] .
  have "\<forall>c \<in> {SubnetsAll v, InternetGatewaysAll v, RouteTablesAll v}. \<exists>rep. (c, Inr rep) \<in> set pre"
    by (auto intro!: ok simp: pre)
  moreover have "\<forall>s \<in> set (listed_subnets pre). \<exists>rep. (DeleteSubnet (subnet_id s), Inr rep) \<in> set pre"
    by (auto intro!: ok simp: pre listed)
  moreover have "\<forall>g \<in> set (listed_gateways pre).
           (\<exists>rep. (DetachInternetGateway v (igw_id g), Inr rep) \<in> set pre)
         \<and> (\<exists>rep. (DeleteInternetGateway (igw_id g), Inr rep) \<in> set pre)"
    by (auto intro!: ok simp: pre listed)
  moreover have "\<forall>t \<in> set (listed_route_tables pre). \<not> carries_main t \<longrightarrow>
           (\<exists>rep. (DeleteRouteTable (rt_id t), Inr rep) \<in> set pre)"
    by (auto intro!: ok simp: pre listed not_main_iff)
  ultimately show ?thesis using v post by simp
qed

theorem vpc_is_deleted_last_witness:
  "cleanup_vpc scripted ''vpc-1''
     [Inr (SubnetList [\<lparr>subnet_id = ''subnet-1'', subnet_tags = Some []\<rparr>]),
      Inr Done,
      Inr (InternetGatewayList [\<lparr>igw_id = ''igw-1'', igw_tags = Some []\<rparr>]),
      Inr Done, Inr Done,
      Inr (RouteTableList
        [\<lparr>rt_id = ''rtb-0'', rt_tags = Some [],
          associations_attribute = Some [\<lparr>assoc_main = Some True\<rparr>]\<rparr>,
         \<lparr>rt_id = ''rtb-1'', rt_tags = Some [], associations_attribute = Some []\<rparr>]),
      Inr Done, Inr Done] =
   (Inr (),
    [(SubnetsAll ''vpc-1'', Inr (SubnetList [\<lparr>subnet_id = ''subnet-1'', subnet_tags = Some []\<rparr>])),
     (DeleteSubnet ''subnet-1'', Inr Done),
     (InternetGatewaysAll ''vpc-1'',
      Inr (InternetGatewayList [\<lparr>igw_id = ''igw-1'', igw_tags = Some []\<rparr>])),
     (DetachInternetGateway ''vpc-1'' ''igw-1'', Inr Done),
     (DeleteInternetGateway ''igw-1'', Inr Done),
     (RouteTablesAll ''vpc-1'',
      Inr (RouteTableList
        [\<lparr>rt_id = ''rtb-0'', rt_tags = Some [],
          associations_attribute = Some [\<lparr>assoc_main = Some True\<rparr>]\<rparr>,
         \<lparr>rt_id = ''rtb-1'', rt_tags = Some [], associations_attribute = Some []\<rparr>])),
     (DeleteRouteTable ''rtb-1'', Inr Done)]
    @ (DeleteVpc ''vpc-1'', Inr Done) # [],
    [])
   \<and> (\<exists>rep. (DeleteSubnet ''subnet-1'', Inr rep) \<in> set
    [(SubnetsAll ''vpc-1'', Inr (SubnetList [\<lparr>subnet_id = ''subnet-1'', subnet_tags = Some []\<rparr>])),
     (DeleteSubnet ''subnet-1'', Inr Done),
     (InternetGatewaysAll ''vpc-1'',
      Inr (InternetGatewayList [\<lparr>igw_id = ''igw-1'', igw_tags = Some []\<rparr>])),
     (DetachInternetGateway ''vpc-1'' ''igw-1'', Inr Done),
     (DeleteInternetGateway ''igw-1'', Inr Done),
     (RouteTablesAll ''vpc-1'',
      Inr (RouteTableList
        [\<lparr>rt_id = ''rtb-0'', rt_tags = Some [],
          associations_attribute = Some [\<lparr>assoc_main = Some True\<rparr>]\<rparr>,
         \<lparr>rt_id = ''rtb-1'', rt_tags = Some [], associations_attribute = Some []\<rparr>])),
     (DeleteRouteTable ''rtb-1'', Inr Done)])"
proof -
  have split:
    "[(SubnetsAll ''vpc-1'', Inr (SubnetList [\<lparr>subnet_id = ''subnet-1'', subnet_tags = Some []\<rparr>])),
     (DeleteSubnet ''subnet-1'', Inr Done),
     (InternetGatewaysAll ''vpc-1'',
      Inr (InternetGatewayList [\<lparr>igw_id = ''igw-1'', igw_tags = Some []\<rparr>])),
     (DetachInternetGateway ''vpc-1'' ''igw-1'', Inr Done),
     (DeleteInternetGateway ''igw-1'', Inr Done),
     (RouteTablesAll ''vpc-1'',
      Inr (RouteTableList
        [\<lparr>rt_id = ''rtb-0'', rt_tags = Some [],
          associations_attribute = Some [\<lparr>assoc_main = Some True\<rparr>]\<rparr>,
         \<lparr>rt_id = ''rtb-1'', rt_tags = Some [], associations_attribute = Some []\<rparr>])),
     (DeleteRouteTable ''rtb-1'', Inr Done),
     (DeleteVpc ''vpc-1'', Inr Done)]
    = [(SubnetsAll ''vpc-1'', Inr (SubnetList [\<lparr>subnet_id = ''subnet-1'', subnet_tags = Some []\<rparr>])),
     (DeleteSubnet ''subnet-1'', Inr Done),
     (InternetGatewaysAll ''vpc-1'',
      Inr (InternetGatewayList [\<lparr>igw_id = ''igw-1'', igw_tags = Some []\<rparr>])),
     (DetachInternetGateway ''vpc-1'' ''igw-1'', Inr Done),
     (DeleteInternetGateway ''igw-1'', Inr Done),
     (RouteTablesAll ''vpc-1'',
      Inr (RouteTableList
        [\<lparr>rt_id = ''rtb-0'', rt_tags = Some [],
          associations_attribute = Some [\<lparr>assoc_main = Some True\<rparr>]\<rparr>,
         \<lparr>rt_id = ''rtb-1'', rt_tags = Some [], associations_attribute = Some []\<rparr>])),
     (DeleteRouteTable ''rtb-1'', Inr Done)]
    @ (DeleteVpc ''vpc-1'', Inr Done) # []"
    by simp
  note vpc_is_deleted_last [OF full_cleanup_run split]
  then show ?thesis
    by (simp add: full_cleanup_run)
qed

text \<open>
  Claim C8. In every run of \<open>cleanup_vpc\<close>, the call just before a
  \<open>DeleteInternetGateway\<close> call is the detach of that same gateway from the VPC, and the
  provider has confirmed it.
\<close>

theorem gateway_detached_before_deleted:
  assumes "cleanup_vpc prov v p = (r, tr, p')"
    and "tr = pre @ (DeleteInternetGateway i, out) # post"
  shows "\<exists>pre' rep. pre = pre' @ [(DetachInternetGateway v i, Inr rep)]"
proof -
  from ensuresD [OF cleanup_vpc_shape assms(1)]
  have "prefix (map fst tr)
     (cleanup_calls v (listed_subnets tr) (listed_gateways tr) (listed_route_tables tr))"
    by simp
  from prefix_calls [OF this assms(2)] obtain zs where
    "cleanup_calls v (listed_subnets tr) (listed_gateways tr) (listed_route_tables tr)
       = map fst pre @ DeleteInternetGateway i # zs" ..
  from cleanup_calls_detach_before_delete [OF this] obtain xs' where
    "map fst pre = xs' @ [DetachInternetGateway v i]" ..
  then obtain pre' ev where pre: "pre = pre' @ [ev]" and ev: "fst ev = DetachInternetGateway v i"
    by (auto simp: map_eq_append_conv)
  obtain out' where ev': "ev = (DetachInternetGateway v i, out')"
    using ev by (cases ev) simp
  have "(DetachInternetGateway v i, out') \<in> set pre"
    using pre ev' by simp
  from ok_before [OF ensuresD [OF cleanup_vpc_fail_stop assms(1)] assms(2) this]
  obtain rep where "out' = Inr rep" ..
  with pre ev' show ?thesis by simp
qed

theorem gateway_detached_before_deleted_witness:
  "cleanup_vpc scripted ''vpc-1''
     [Inr (SubnetList [\<lparr>subnet_id = ''subnet-1'', subnet_tags = Some []\<rparr>]),
      Inr Done,
      Inr (InternetGatewayList [\<lparr>igw_id = ''igw-1'', igw_tags = Some []\<rparr>]),
      Inr Done, Inr Done,
      Inr (RouteTableList
        [\<lparr>rt_id = ''rtb-0'', rt_tags = Some [],
          associations_attribute = Some [\<lparr>assoc_main = Some True\<rparr>]\<rparr>,
         \<lparr>rt_id = ''rtb-1'', rt_tags = Some [], associations_attribute = Some []\<rparr>]),
      Inr Done, Inr Done] =
   (Inr (),
    [(SubnetsAll ''vpc-1'', Inr (SubnetList [\<lparr>subnet_id = ''subnet-1'', subnet_tags = Some []\<rparr>])),
     (DeleteSubnet ''subnet-1'', Inr Done),
     (InternetGatewaysAll ''vpc-1'',
      Inr (InternetGatewayList [\<lparr>igw_id = ''igw-1'', igw_tags = Some []\<rparr>])),
     (DetachInternetGateway ''vpc-1'' ''igw-1'', Inr Done)]
    @ (DeleteInternetGateway ''igw-1'', Inr Done) #
    [(RouteTablesAll ''vpc-1'',
      Inr (RouteTableList
        [\<lparr>rt_id = ''rtb-0'', rt_tags = Some [],
          associations_attribute = Some [\<lparr>assoc_main = Some True\<rparr>]\<rparr>,
         \<lparr>rt_id = ''rtb-1'', rt_tags = Some [], associations_attribute = Some []\<rparr>])),
     (DeleteRouteTable ''rtb-1'', Inr Done),
     (DeleteVpc ''vpc-1'', Inr Done)],
    [])
   \<and> (\<exists>pre' rep.
     [(SubnetsAll ''vpc-1'', Inr (SubnetList [\<lparr>subnet_id = ''subnet-1'', subnet_tags = Some []\<rparr>])),
      (DeleteSubnet ''subnet-1'', Inr Done),
      (InternetGatewaysAll ''vpc-1'',
       Inr (InternetGatewayList [\<lparr>igw_id = ''igw-1'', igw_tags = Some []\<rparr>])),
      (DetachInternetGateway ''vpc-1'' ''igw-1'', Inr Done)]
     = pre' @ [(DetachInternetGateway ''vpc-1'' ''igw-1'', Inr rep)])"
proof -
  have split:
    "[(SubnetsAll ''vpc-1'', Inr (SubnetList [\<lparr>subnet_id = ''subnet-1'', subnet_tags = Some []\<rparr>])),
     (DeleteSubnet ''subnet-1'', Inr Done),
     (InternetGatewaysAll ''vpc-1'',
      Inr (InternetGatewayList [\<lparr>igw_id = ''igw-1'', igw_tags = Some []\<rparr>])),
     (DetachInternetGateway ''vpc-1'' ''igw-1'', Inr Done),
     (DeleteInternetGateway ''igw-1'', Inr Done),
     (RouteTablesAll ''vpc-1'',
      Inr (RouteTableList
        [\<lparr>rt_id = ''rtb-0'', rt_tags = Some [],
          associations_attribute = Some [\<lparr>assoc_main = Some True\<rparr>]\<rparr>,
         \<lparr>rt_id = ''rtb-1'', rt_tags = Some [], associations_attribute = Some []\<rparr>])),
     (DeleteRouteTable ''rtb-1'', Inr Done),
     (DeleteVpc ''vpc-1'', Inr Done)]
    = [(SubnetsAll ''vpc-1'', Inr (SubnetList [\<lparr>subnet_id = ''subnet-1'', subnet_tags = Some []\<rparr>])),
     (DeleteSubnet ''subnet-1'', Inr Done),
     (InternetGatewaysAll ''vpc-1'',
      Inr (InternetGatewayList [\<lparr>igw_id = ''igw-1'', igw_tags = Some []\<rparr>])),
     (DetachInternetGateway ''vpc-1'' ''igw-1'', Inr Done)]
    @ (DeleteInternetGateway ''igw-1'', Inr Done) #
    [(RouteTablesAll ''vpc-1'',
      Inr (RouteTableList
        [\<lparr>rt_id = ''rtb-0'', rt_tags = Some [],
          associations_attribute = Some [\<lparr>assoc_main = Some True\<rparr>]\<rparr>,
         \<lparr>rt_id = ''rtb-1'', rt_tags = Some [], associations_attribute = Some []\<rparr>])),
     (DeleteRouteTable ''rtb-1'', Inr Done),
     (DeleteVpc ''vpc-1'', Inr Done)]"
    by simp
  from gateway_detached_before_deleted [OF full_cleanup_run split]
  show ?thesis
    by (simp add: full_cleanup_run)
qed

section \<open>Route tables during cleanup\<close>

lemma no_disassociation_in_cleanup_calls:
  "DisassociateRouteTable a \<notin> set (cleanup_calls v S G R)"
  by (auto simp: cleanup_calls_def)

lemma deleted_route_tables_of_calls:
  "deleted_route_tables tr = concat (map route_table_deleted (map fst tr))"
  by (simp add: deleted_route_tables_def comp_def)

lemma prefix_concat_map:
  "prefix xs ys \<Longrightarrow> prefix (concat (map f xs)) (concat (map f ys))"
  by (auto simp: prefix_def)

lemma no_route_table_among_subnet_deletes:
  "concat (map (route_table_deleted \<circ> (\<lambda>s. DeleteSubnet (subnet_id s))) S) = []"
  by (induction S) simp_all

lemma no_route_table_among_gateway_deletes:
  "concat (map route_table_deleted (concat (map (\<lambda>g.
      [DetachInternetGateway v (igw_id g), DeleteInternetGateway (igw_id g)]) G))) = []"
  by (induction G) simp_all

lemma route_table_deletes:
  "concat (map (route_table_deleted \<circ> (\<lambda>t. DeleteRouteTable (rt_id t))) ts) = map rt_id ts"
  by (induction ts) simp_all

lemma route_tables_deleted_by_cleanup_calls:
  "concat (map route_table_deleted (cleanup_calls v S G R))
     = map rt_id (filter (\<lambda>t. \<not> carries_main t) R)"
proof -
  have "not_main = (\<lambda>t. \<not> carries_main t)"
    by (rule ext) (simp add: not_main_iff)
  then show ?thesis
    by (simp add: cleanup_calls_def no_route_table_among_subnet_deletes
        no_route_table_among_gateway_deletes route_table_deletes)
qed

lemma cleanup_never_disassociates:
  assumes "cleanup_vpc prov v p = (r, tr, p')"
  shows "\<forall>a. DisassociateRouteTable a \<notin> fst ` set tr"
proof (intro allI notI)
  fix a
  assume "DisassociateRouteTable a \<in> fst ` set tr"
  then obtain out where "(DisassociateRouteTable a, out) \<in> set tr"
    by auto
  from calls_in_plan [OF conjunct1 [OF ensuresD [OF cleanup_vpc_shape assms]] this]
  show False
    by (simp add: no_disassociation_in_cleanup_calls)
qed

lemma deleted_route_tables_prefix:
  assumes "cleanup_vpc prov v p = (r, tr, p')"
  shows "prefix (deleted_route_tables tr)
           (map rt_id (filter (\<lambda>t. \<not> carries_main t) (listed_route_tables tr)))"
  using prefix_concat_map [OF conjunct1 [OF ensuresD [OF cleanup_vpc_shape assms]],
      of route_table_deleted]
  by (simp add: deleted_route_tables_of_calls route_tables_deleted_by_cleanup_calls)

section \<open>The order of creation and of teardown\<close>

lemma created_order_simps [simp]:
  "created_order [] = []"
  "created_order (ev # tr) = created ev @ created_order tr"
  "created_order (tr @ tr') = created_order tr @ created_order tr'"
  by (simp_all add: created_order_def)












lemma iterate_tags_simps [simp]:
  "iterate_tags None = raise TypeError"
  "iterate_tags (Some ts) = return_val ()"
  by (simp_all add: iterate_tags_def)




lemma created_malformed [simp]:
  "\<forall>i. rep \<noteq> Created i \<Longrightarrow> created (c, Inr rep) = []"
  by (cases c; cases rep; simp)




lemma deleted_order_simps [simp]:
  "deleted_order [] = []"
  "deleted_order (ev # tr) = deleted (fst ev) @ deleted_order tr"
  "deleted_order (tr @ tr') = deleted_order tr @ deleted_order tr'"
  by (simp_all add: deleted_order_def)








section \<open>Runs go on as long as the provider answers well\<close>

lemma orderly_Nil [simp]: "orderly (Inr x) []"
  by (simp add: orderly_def)

lemma orderly_single_raise [simp]: "orderly (Inl e) [(c, Inl e)]"
  by (simp add: orderly_def)

lemma orderly_single_malformed:
  "\<not> well_formed c rep \<Longrightarrow> orderly (Inl MalformedReply) [(c, Inr rep)]"
  by (simp add: orderly_def)

lemma orderly_single_good:
  "well_formed c rep \<Longrightarrow> orderly (Inr x) [(c, Inr rep)]"
  by (simp add: orderly_def)

lemma orderly_append:
  assumes "orderly (Inr x) tr1" and "orderly r tr2"
  shows "orderly r (tr1 @ tr2)"
proof (cases r)
  case (Inl e)
  with assms(2) obtain pre ev where
    "tr2 = pre @ [ev]" "\<forall>x \<in> set pre. good x" "\<not> good ev" "e = raised_by ev"
    by (auto simp: orderly_def)
  with assms(1) have "tr1 @ tr2 = (tr1 @ pre) @ [ev] \<and> (\<forall>x \<in> set (tr1 @ pre). good x)
      \<and> \<not> good ev \<and> e = raised_by ev"
    by (auto simp: orderly_def)
  then show ?thesis
    unfolding orderly_def Inl sum.case by (intro exI)
next
  case (Inr y)
  with assms show ?thesis by (auto simp: orderly_def)
qed

lemma ensures_orderly_and_then:
  assumes "ensures m orderly" and "\<And>x. ensures (f x) orderly"
  shows "ensures (and_then m f) orderly"
proof (rule ensures_and_then [OF assms(1)], goal_cases)
  case (1 e tr)
  then show ?case by (simp add: orderly_def)
next
  case (2 x tr)
  show ?case
    unfolding ensures_def
  proof (intro allI impI)
    fix p r tra p'
    assume "f x p = (r, tra, p')"
    then have "orderly r tra"
      by (rule ensuresD [OF assms(2)])
    with 2 show "orderly r (tr @ tra)"
      by (rule orderly_append)
  qed
qed

lemma ensures_orderly_return: "ensures (return_val x) orderly"
  by (rule ensures_return) simp

lemma ensures_orderly_action:
  assumes "\<And>rep. well_formed c rep"
  shows "ensures (action prov c) orderly"
  by (rule ensures_action) (simp_all add: orderly_single_good assms)

lemma ensures_orderly_create:
  assumes "\<And>rep. well_formed c rep = (case rep of Created _ \<Rightarrow> True | _ \<Rightarrow> False)"
  shows "ensures (create prov c) orderly"
proof (rule ensures_create, goal_cases)
  case (1 e)
  show ?case by simp
next
  case (2 i)
  show ?case by (simp add: orderly_single_good assms)
next
  case (3 rep)
  then have "\<not> well_formed c rep"
    by (cases rep) (simp_all add: assms)
  then show ?case by (rule orderly_single_malformed)
qed

lemma ensures_orderly_subnets_all: "ensures (subnets_all prov v) orderly"
  unfolding subnets_all_def
  by (rule ensures_and_then [where P = "\<lambda>r tr. tr = [(SubnetsAll v, r)]"])
     (auto intro!: ensures_invoke ensures_return ensures_raise
           simp: orderly_single_good orderly_single_malformed split: reply.splits)

lemma ensures_orderly_internet_gateways_all: "ensures (internet_gateways_all prov v) orderly"
  unfolding internet_gateways_all_def
  by (rule ensures_and_then [where P = "\<lambda>r tr. tr = [(InternetGatewaysAll v, r)]"])
     (auto intro!: ensures_invoke ensures_return ensures_raise
           simp: orderly_single_good orderly_single_malformed split: reply.splits)

lemma ensures_orderly_route_tables_all: "ensures (route_tables_all prov v) orderly"
  unfolding route_tables_all_def
  by (rule ensures_and_then [where P = "\<lambda>r tr. tr = [(RouteTablesAll v, r)]"])
     (auto intro!: ensures_invoke ensures_return ensures_raise
           simp: orderly_single_good orderly_single_malformed split: reply.splits)

lemma ensures_orderly_for_each:
  assumes "\<And>x. ensures (body x) orderly"
  shows "ensures (for_each xs body) orderly"
  by (induction xs) (auto intro!: ensures_orderly_and_then ensures_orderly_return assms)

lemmas orderly_intros =
  ensures_orderly_and_then ensures_orderly_for_each ensures_orderly_action
  ensures_orderly_create ensures_orderly_subnets_all ensures_orderly_internet_gateways_all
  ensures_orderly_route_tables_all ensures_orderly_return

lemma cleanup_vpc_orderly: "ensures (cleanup_vpc prov v) orderly"
  unfolding cleanup_vpc_def
  by (intro orderly_intros) (simp_all add: orderly_intros)

lemma create_vpc_orderly: "ensures (create_vpc prov) orderly"
  unfolding create_vpc_def
  by (intro orderly_intros) simp_all

lemma create_route_table_orderly:
  "ensures (create_route_table prov vpc name igw subnet) orderly"
  unfolding create_route_table_def
  by (cases igw; cases subnet) (intro orderly_intros; simp)+

lemma orderly_raises_last:
  assumes "orderly (Inl e) tr"
  shows "tr \<noteq> [] \<and> \<not> good (last tr) \<and> e = raised_by (last tr)"
  using assms by (auto simp: orderly_def)

subsection \<open>The recorded outcomes are the provider's\<close>

lemma answers_append:
  "answers prov p (cs @ ds) =
     (case answers prov p cs of (evs, p1) \<Rightarrow>
        (case answers prov p1 ds of (evs', p2) \<Rightarrow> (evs @ evs', p2)))"
  by (induction cs arbitrary: p) (auto split: prod.splits)

lemma faithfulD:
  "faithful prov m \<Longrightarrow> m p = (r, tr, p') \<Longrightarrow> answers prov p (map fst tr) = (tr, p')"
  unfolding faithful_def by (elim allE impE) assumption+

lemma faithful_return: "faithful prov (return_val x)"
  by (simp add: faithful_def return_val_def)

lemma faithful_raise: "faithful prov (raise e)"
  by (simp add: faithful_def raise_def)

lemma faithful_invoke: "faithful prov (invoke prov c)"
  by (auto simp: faithful_def invoke_def split: prod.splits)

lemma faithful_and_then:
  assumes "faithful prov m" and "\<And>x. faithful prov (f x)"
  shows "faithful prov (and_then m f)"
  unfolding faithful_def
proof (intro allI impI)
  fix p r tr p'
  assume run: "and_then m f p = (r, tr, p')"
  obtain r1 tr1 p1 where m: "m p = (r1, tr1, p1)"
    by (cases "m p") auto
  note a1 = faithfulD [OF assms(1) m]
  show "answers prov p (map fst tr) = (tr, p')"
  proof (cases r1)
    case (Inl e)
    with run m have "tr = tr1" "p' = p1"
      by (simp_all add: and_then_def)
    with a1 show ?thesis by simp
  next
    case (Inr x)
    obtain r2 tr2 p2 where f: "f x p1 = (r2, tr2, p2)"
      by (cases "f x p1") auto
    with run m Inr have "tr = tr1 @ tr2" "p' = p2"
      by (simp_all add: and_then_def)
    with a1 faithfulD [OF assms(2) f] show ?thesis
      by (simp add: answers_append)
  qed
qed

lemma faithful_action: "faithful prov (action prov c)"
  unfolding action_def by (intro faithful_and_then faithful_invoke faithful_return)

lemma faithful_create: "faithful prov (create prov c)"
  unfolding create_def
  by (intro faithful_and_then faithful_invoke)
     (simp add: faithful_return faithful_raise split: reply.splits)

lemma faithful_subnets_all: "faithful prov (subnets_all prov v)"
  unfolding subnets_all_def
  by (intro faithful_and_then faithful_invoke)
     (simp add: faithful_return faithful_raise split: reply.splits)

lemma faithful_internet_gateways_all: "faithful prov (internet_gateways_all prov v)"
  unfolding internet_gateways_all_def
  by (intro faithful_and_then faithful_invoke)
     (simp add: faithful_return faithful_raise split: reply.splits)

lemma faithful_route_tables_all: "faithful prov (route_tables_all prov v)"
  unfolding route_tables_all_def
  by (intro faithful_and_then faithful_invoke)
     (simp add: faithful_return faithful_raise split: reply.splits)

lemma faithful_for_each:
  assumes "\<And>x. faithful prov (body x)"
  shows "faithful prov (for_each xs body)"
  by (induction xs) (auto intro!: faithful_and_then faithful_return assms)

lemmas faithful_intros =
  faithful_and_then faithful_for_each faithful_action faithful_create faithful_subnets_all
  faithful_internet_gateways_all faithful_route_tables_all faithful_return faithful_raise

lemma cleanup_vpc_faithful: "faithful prov (cleanup_vpc prov v)"
  unfolding cleanup_vpc_def
  by (intro faithful_intros) (simp_all add: faithful_intros)

lemma create_route_table_faithful:
  "faithful prov (create_route_table prov vpc name igw subnet)"
  unfolding create_route_table_def
  by (cases igw; cases subnet) (intro faithful_intros; simp)+

lemma answers_good:
  assumes "\<And>c q. good (c, fst (prov c q))" and "answers prov p cs = (tr, p')"
  shows "\<forall>ev \<in> set tr. good ev"
  using assms(2)
proof (induction cs arbitrary: p tr p')
  case Nil
  then show ?case by simp
next
  case (Cons c cs)
  obtain out p1 where c: "prov c p = (out, p1)"
    by (cases "prov c p") auto
  obtain evs p2 where rest: "answers prov p1 cs = (evs, p2)"
    by (cases "answers prov p1 cs") auto
  from Cons.prems c rest have tr: "tr = (c, out) # evs"
    by simp
  from assms(1) [of c p] c have "good (c, out)" by simp
  with Cons.IH [OF rest] tr show ?case by simp
qed

lemma returns_when_provider_accepts:
  assumes "faithful prov m" and "ensures m orderly"
    and "\<And>c q. good (c, fst (prov c q))" and "m p = (r, tr, p')"
  shows "\<exists>x. r = Inr x"
proof (cases r)
  case (Inl e)
  from ensuresD [OF assms(2,4)] Inl have "\<exists>ev \<in> set tr. \<not> good ev"
    by (auto simp: orderly_def)
  moreover from answers_good [OF assms(3) faithfulD [OF assms(1,4)]]
  have "\<forall>ev \<in> set tr. good ev" .
  ultimately show ?thesis by blast
next
  case (Inr x)
  then show ?thesis by simp
qed

lemma accepting_good: "good (c, fst (accepting c q))"
  by (cases c) simp_all

lemma quiet_not_listed [simp]:
  "quiet tr \<Longrightarrow> (SubnetsAll v, out) \<notin> set tr"
  "quiet tr \<Longrightarrow> (InternetGatewaysAll v, out) \<notin> set tr"
  "quiet tr \<Longrightarrow> (RouteTablesAll v, out) \<notin> set tr"
  by (force simp: quiet_def is_lookup_def)+

lemma cleanup_vpc_lists_route_tables:
  "ensures (cleanup_vpc prov v) (\<lambda>r tr.
     r = Inr () \<longrightarrow> (RouteTablesAll v, Inr (RouteTableList (listed_route_tables tr))) \<in> set tr)"
  unfolding cleanup_vpc_performs
  apply (intro ensures_then_subnets_all ensures_then_perform ensures_then_internet_gateways_all
               ensures_then_route_tables_all ensures_action)
  apply (simp_all add: is_lookup_def)
  done

lemma subnets_before_route_tables:
  assumes "cleanup_calls v S G R = xs @ DeleteRouteTable i # ys"
  shows "\<forall>s \<in> set S. DeleteSubnet (subnet_id s) \<in> set xs"
proof -
  let ?A = "SubnetsAll v # map (\<lambda>s. DeleteSubnet (subnet_id s)) S
     @ InternetGatewaysAll v
       # concat (map (\<lambda>g. [DetachInternetGateway v (igw_id g), DeleteInternetGateway (igw_id g)]) G)
     @ [RouteTablesAll v]"
  let ?B = "map (\<lambda>t. DeleteRouteTable (rt_id t)) (filter not_main R) @ [DeleteVpc v]"
  have eq: "xs @ DeleteRouteTable i # ys = ?A @ ?B"
    using assms by (simp add: cleanup_calls_def)
  have "DeleteRouteTable i \<notin> set ?A" by auto
  from split_skip [OF eq this] obtain us where "xs = ?A @ us"
    by blast
  then show ?thesis by auto
qed

lemma create_route_table_prefix:
  "ensures (create_route_table prov vpc name igw subnet) (\<lambda>r tr.
       (\<exists>out rest. tr = (CreateRouteTable vpc, out) # rest)
     \<and> (\<forall>rt. r = Inr rt \<longrightarrow> (\<exists>rest. tr = (CreateRouteTable vpc, Inr (Created rt)) # rest))
     \<and> (\<forall>rt rest. tr = (CreateRouteTable vpc, Inr (Created rt)) # rest \<longrightarrow>
           prefix (map fst tr)
             ([CreateRouteTable vpc, CreateTags rt [(''Name'', name)]]
              @ (case igw of Some g \<Rightarrow> [CreateRoute rt ''0.0.0.0/0'' g] | None \<Rightarrow> [])
              @ (case subnet of Some s \<Rightarrow> [AssociateWithSubnet rt s] | None \<Rightarrow> []))))"
  unfolding create_route_table_def
  by (cases igw; cases subnet)
     (auto intro!: ensures_then_create ensures_then_action ensures_return)

lemma bare_route_table_run:
  "create_route_table accepting ''vpc-1'' ''tutorial-private-rt'' None None 0 =
   (Inr ''rtb-1'',
    [(CreateRouteTable ''vpc-1'', Inr (Created ''rtb-1'')),
     (CreateTags ''rtb-1'' [(''Name'', ''tutorial-private-rt'')], Inr Done)],
    2)"
  by (simp add: create_route_table_def run_defs)

lemma empty_vpc_cleanup_run:
  "cleanup_vpc accepting ''vpc-1'' 0 =
   (Inr (),
    [(SubnetsAll ''vpc-1'', Inr (SubnetList [])),
     (InternetGatewaysAll ''vpc-1'', Inr (InternetGatewayList [])),
     (RouteTablesAll ''vpc-1'', Inr (RouteTableList [])),
     (DeleteVpc ''vpc-1'', Inr Done)],
    4)"
  by (simp add: cleanup_vpc_def listing_defs run_defs)

section \<open>Runs that end early, and runs that go through\<close>

text \<open>
  Claim C10. Every run of \<open>create_route_table\<close> starts with the call that creates the
  table in the VPC. The outcomes it records are the provider's answers to its calls; it
  returns exactly when every call went well, and otherwise it raises what its last call
  gives, so against a provider that answers every call well it returns. A run that
  returns the route table \<open>rt\<close> has made exactly these calls, in this order: create the
  table, tag it with its Name, then one \<open>CreateRoute\<close> to \<open>0.0.0.0/0\<close> through the
  gateway if and only if a gateway was given, then one \<open>AssociateWithSubnet\<close> if and
  only if a subnet was given; with neither argument only the first two calls are made. A
  run that was cut short has made a prefix of these calls. In every run a route is only
  ever added to \<open>0.0.0.0/0\<close> through the given gateway, and an association is only ever
  made with the given subnet.
\<close>

theorem create_route_table_calls:
  assumes "create_route_table prov vpc name igw subnet p = (r, tr, p')"
  shows "(\<forall>rt. r = Inr rt \<longrightarrow>
            map fst tr = [CreateRouteTable vpc, CreateTags rt [(''Name'', name)]]
              @ (case igw of Some g \<Rightarrow> [CreateRoute rt ''0.0.0.0/0'' g] | None \<Rightarrow> [])
              @ (case subnet of Some s \<Rightarrow> [AssociateWithSubnet rt s] | None \<Rightarrow> []))
       \<and> (\<forall>a d g. CreateRoute a d g \<in> fst ` set tr \<longrightarrow> d = ''0.0.0.0/0'' \<and> igw = Some g)
       \<and> (\<forall>a s. AssociateWithSubnet a s \<in> fst ` set tr \<longrightarrow> subnet = Some s)
       \<and> (\<exists>out rest. tr = (CreateRouteTable vpc, out) # rest)
       \<and> (\<forall>rt. r = Inr rt \<longrightarrow> (\<exists>rest. tr = (CreateRouteTable vpc, Inr (Created rt)) # rest))
       \<and> (\<forall>rt rest. tr = (CreateRouteTable vpc, Inr (Created rt)) # rest \<longrightarrow>
            prefix (map fst tr)
             ([CreateRouteTable vpc, CreateTags rt [(''Name'', name)]]
              @ (case igw of Some g \<Rightarrow> [CreateRoute rt ''0.0.0.0/0'' g] | None \<Rightarrow> [])
              @ (case subnet of Some s \<Rightarrow> [AssociateWithSubnet rt s] | None \<Rightarrow> [])))
       \<and> orderly r tr
       \<and> answers prov p (map fst tr) = (tr, p')
       \<and> ((\<forall>c q. good (c, fst (prov c q))) \<longrightarrow> (\<exists>rt. r = Inr rt))"
proof -
  note calls = ensuresD [OF create_route_table_ensures assms]
  note start = ensuresD [OF create_route_table_prefix assms]
  note ends = ensuresD [OF create_route_table_orderly assms]
  note outcomes = faithfulD [OF create_route_table_faithful assms]
  have accepts: "(\<forall>c q. good (c, fst (prov c q))) \<longrightarrow> (\<exists>rt. r = Inr rt)"
  proof
    assume "\<forall>c q. good (c, fst (prov c q))"
    then have "\<And>c q. good (c, fst (prov c q))" by simp
    from returns_when_provider_accepts
      [OF create_route_table_faithful create_route_table_orderly this assms]
    show "\<exists>rt. r = Inr rt" .
  qed
  show ?thesis
    by (intro conjI)
       (rule calls [THEN conjunct1] calls [THEN conjunct2, THEN conjunct1]
          calls [THEN conjunct2, THEN conjunct2]
          start [THEN conjunct1] start [THEN conjunct2, THEN conjunct1]
          start [THEN conjunct2, THEN conjunct2]
          ends outcomes accepts)+
qed

theorem create_route_table_calls_witness:
  "orderly (Inr ''rtb-1'' :: exn + string)
     [(CreateRouteTable ''vpc-1'', Inr (Created ''rtb-1'')),
      (CreateTags ''rtb-1'' [(''Name'', ''tutorial-private-rt'')], Inr Done)]
   \<and> create_route_table accepting ''vpc-1'' ''tutorial-private-rt'' None None 0 =
   (Inr ''rtb-1'',
    [(CreateRouteTable ''vpc-1'', Inr (Created ''rtb-1'')),
     (CreateTags ''rtb-1'' [(''Name'', ''tutorial-private-rt'')], Inr Done)],
    2)
   \<and> (\<forall>c q. good (c, fst (accepting c q)))
   \<and> create_route_table scripted ''vpc-1'' ''tutorial-public-rt'' (Some ''igw-1'') (Some ''subnet-1'')
     [Inr (Created ''rtb-1''), Inr Done, Inr Done, Inr Done] =
   (Inr ''rtb-1'',
    [(CreateRouteTable ''vpc-1'', Inr (Created ''rtb-1'')),
     (CreateTags ''rtb-1'' [(''Name'', ''tutorial-public-rt'')], Inr Done),
     (CreateRoute ''rtb-1'' ''0.0.0.0/0'' ''igw-1'', Inr Done),
     (AssociateWithSubnet ''rtb-1'' ''subnet-1'', Inr Done)],
    [])
   \<and> map fst
     [(CreateRouteTable ''vpc-1'', Inr (Created ''rtb-1'')),
      (CreateTags ''rtb-1'' [(''Name'', ''tutorial-public-rt'')], Inr Done),
      (CreateRoute ''rtb-1'' ''0.0.0.0/0'' ''igw-1'', Inr Done),
      (AssociateWithSubnet ''rtb-1'' ''subnet-1'', Inr Done)] =
     [CreateRouteTable ''vpc-1'', CreateTags ''rtb-1'' [(''Name'', ''tutorial-public-rt'')],
      CreateRoute ''rtb-1'' ''0.0.0.0/0'' ''igw-1'', AssociateWithSubnet ''rtb-1'' ''subnet-1'']"
proof -
  have evaluated:
    "create_route_table accepting ''vpc-1'' ''tutorial-private-rt'' None None 0 =
   (Inr ''rtb-1'',
    [(CreateRouteTable ''vpc-1'', Inr (Created ''rtb-1'')),
     (CreateTags ''rtb-1'' [(''Name'', ''tutorial-private-rt'')], Inr Done)],
    2)
   \<and> (\<forall>c q. good (c, fst (accepting c q)))
   \<and> create_route_table scripted ''vpc-1'' ''tutorial-public-rt'' (Some ''igw-1'') (Some ''subnet-1'')
     [Inr (Created ''rtb-1''), Inr Done, Inr Done, Inr Done] =
   (Inr ''rtb-1'',
    [(CreateRouteTable ''vpc-1'', Inr (Created ''rtb-1'')),
     (CreateTags ''rtb-1'' [(''Name'', ''tutorial-public-rt'')], Inr Done),
     (CreateRoute ''rtb-1'' ''0.0.0.0/0'' ''igw-1'', Inr Done),
     (AssociateWithSubnet ''rtb-1'' ''subnet-1'', Inr Done)],
    [])
   \<and> map fst
     [(CreateRouteTable ''vpc-1'', Inr (Created ''rtb-1'')),
      (CreateTags ''rtb-1'' [(''Name'', ''tutorial-public-rt'')], Inr Done),
      (CreateRoute ''rtb-1'' ''0.0.0.0/0'' ''igw-1'', Inr Done),
      (AssociateWithSubnet ''rtb-1'' ''subnet-1'', Inr Done)] =
     [CreateRouteTable ''vpc-1'', CreateTags ''rtb-1'' [(''Name'', ''tutorial-public-rt'')],
      CreateRoute ''rtb-1'' ''0.0.0.0/0'' ''igw-1'', AssociateWithSubnet ''rtb-1'' ''subnet-1'']"
    by (intro conjI allI accepting_good)
       (simp_all add: bare_route_table_run public_route_table_run)
  from create_route_table_calls [OF bare_route_table_run]
  have "orderly (Inr ''rtb-1'' :: exn + string)
     [(CreateRouteTable ''vpc-1'', Inr (Created ''rtb-1'')),
      (CreateTags ''rtb-1'' [(''Name'', ''tutorial-private-rt'')], Inr Done)]"
    by (elim conjE)
  then show ?thesis
    using evaluated by (rule conjI)
qed

text \<open>
  Claim C9. No run of \<open>cleanup_vpc\<close> makes a disassociation call. The route tables it
  asks the provider to delete are, in the order listed, the listed route tables that
  carry no association marked Main: always a prefix of them, and all of them when the
  run returns, in which case the provider's reply to the route-table listing of the VPC
  is in the run. A route table whose \<open>associations_attribute\<close> is \<open>None\<close> or empty
  carries no such association, so it is among those deleted. The calls of a run are a
  prefix of the calls of the complete cleanup, and all of them when it returns; the
  outcomes recorded are the provider's answers; the run returns exactly when every call
  went well, so against a provider that answers every call well it returns.
\<close>

theorem main_route_table_is_skipped:
  assumes "cleanup_vpc prov v p = (r, tr, p')"
  shows "(\<forall>a. DisassociateRouteTable a \<notin> fst ` set tr)
     \<and> prefix (deleted_route_tables tr)
          (map rt_id (filter (\<lambda>t. \<not> carries_main t) (listed_route_tables tr)))
     \<and> (r = Inr () \<longrightarrow> deleted_route_tables tr
          = map rt_id (filter (\<lambda>t. \<not> carries_main t) (listed_route_tables tr)))
     \<and> (\<forall>t. associations_attribute t = None \<or> associations_attribute t = Some []
          \<longrightarrow> \<not> carries_main t)
     \<and> (r = Inr () \<longrightarrow>
          (RouteTablesAll v, Inr (RouteTableList (listed_route_tables tr))) \<in> set tr)
     \<and> prefix (map fst tr)
          (cleanup_calls v (listed_subnets tr) (listed_gateways tr) (listed_route_tables tr))
     \<and> (r = Inr () \<longrightarrow> map fst tr
          = cleanup_calls v (listed_subnets tr) (listed_gateways tr) (listed_route_tables tr))
     \<and> orderly r tr
     \<and> answers prov p (map fst tr) = (tr, p')
     \<and> ((\<forall>c q. good (c, fst (prov c q))) \<longrightarrow> r = Inr ())"
proof (intro conjI)
  show "\<forall>a. DisassociateRouteTable a \<notin> fst ` set tr"
    by (rule cleanup_never_disassociates [OF assms])
  show "prefix (deleted_route_tables tr)
          (map rt_id (filter (\<lambda>t. \<not> carries_main t) (listed_route_tables tr)))"
    by (rule deleted_route_tables_prefix [OF assms])
  show "r = Inr () \<longrightarrow> deleted_route_tables tr
          = map rt_id (filter (\<lambda>t. \<not> carries_main t) (listed_route_tables tr))"
    using conjunct2 [OF ensuresD [OF cleanup_vpc_shape assms]]
    by (simp add: deleted_route_tables_of_calls route_tables_deleted_by_cleanup_calls)
  show "\<forall>t. associations_attribute t = None \<or> associations_attribute t = Some []
          \<longrightarrow> \<not> carries_main t"
    by (auto simp: carries_main_def)
  show "r = Inr () \<longrightarrow>
          (RouteTablesAll v, Inr (RouteTableList (listed_route_tables tr))) \<in> set tr"
    by (rule ensuresD [OF cleanup_vpc_lists_route_tables assms])
  show "prefix (map fst tr)
          (cleanup_calls v (listed_subnets tr) (listed_gateways tr) (listed_route_tables tr))"
    by (rule conjunct1 [OF ensuresD [OF cleanup_vpc_shape assms]])
  show "r = Inr () \<longrightarrow> map fst tr
          = cleanup_calls v (listed_subnets tr) (listed_gateways tr) (listed_route_tables tr)"
    by (rule conjunct2 [OF ensuresD [OF cleanup_vpc_shape assms]])
  show "orderly r tr"
    by (rule ensuresD [OF cleanup_vpc_orderly assms])
  show "answers prov p (map fst tr) = (tr, p')"
    by (rule faithfulD [OF cleanup_vpc_faithful assms])
  show "(\<forall>c q. good (c, fst (prov c q))) \<longrightarrow> r = Inr ()"
  proof
    assume "\<forall>c q. good (c, fst (prov c q))"
    then have "\<And>c q. good (c, fst (prov c q))" by simp
    from returns_when_provider_accepts [OF cleanup_vpc_faithful cleanup_vpc_orderly this assms]
    show "r = Inr ()" by simp
  qed
qed

theorem main_route_table_is_skipped_witness:
  "prefix (deleted_route_tables
      [(SubnetsAll ''vpc-1'', Inr (SubnetList [\<lparr>subnet_id = ''subnet-1'', subnet_tags = Some []\<rparr>])),
     (DeleteSubnet ''subnet-1'', Inr Done),
     (InternetGatewaysAll ''vpc-1'',
      Inr (InternetGatewayList [\<lparr>igw_id = ''igw-1'', igw_tags = Some []\<rparr>])),
     (DetachInternetGateway ''vpc-1'' ''igw-1'', Inr Done),
     (DeleteInternetGateway ''igw-1'', Inr Done),
     (RouteTablesAll ''vpc-1'',
      Inr (RouteTableList
        [\<lparr>rt_id = ''rtb-0'', rt_tags = Some [],
          associations_attribute = Some [\<lparr>assoc_main = Some True\<rparr>]\<rparr>,
         \<lparr>rt_id = ''rtb-1'', rt_tags = Some [], associations_attribute = Some []\<rparr>])),
     (DeleteRouteTable ''rtb-1'', Inr Done),
     (DeleteVpc ''vpc-1'', Inr Done)])
     (map rt_id (filter (\<lambda>t. \<not> carries_main t) (listed_route_tables
      [(SubnetsAll ''vpc-1'', Inr (SubnetList [\<lparr>subnet_id = ''subnet-1'', subnet_tags = Some []\<rparr>])),
     (DeleteSubnet ''subnet-1'', Inr Done),
     (InternetGatewaysAll ''vpc-1'',
      Inr (InternetGatewayList [\<lparr>igw_id = ''igw-1'', igw_tags = Some []\<rparr>])),
     (DetachInternetGateway ''vpc-1'' ''igw-1'', Inr Done),
     (DeleteInternetGateway ''igw-1'', Inr Done),
     (RouteTablesAll ''vpc-1'',
      Inr (RouteTableList
        [\<lparr>rt_id = ''rtb-0'', rt_tags = Some [],
          associations_attribute = Some [\<lparr>assoc_main = Some True\<rparr>]\<rparr>,
         \<lparr>rt_id = ''rtb-1'', rt_tags = Some [], associations_attribute = Some []\<rparr>])),
     (DeleteRouteTable ''rtb-1'', Inr Done),
     (DeleteVpc ''vpc-1'', Inr Done)])))
   \<and> cleanup_vpc scripted ''vpc-1''
     [Inr (SubnetList [\<lparr>subnet_id = ''subnet-1'', subnet_tags = Some []\<rparr>]),
      Inr Done,
      Inr (InternetGatewayList [\<lparr>igw_id = ''igw-1'', igw_tags = Some []\<rparr>]),
      Inr Done, Inr Done,
      Inr (RouteTableList
        [\<lparr>rt_id = ''rtb-0'', rt_tags = Some [],
          associations_attribute = Some [\<lparr>assoc_main = Some True\<rparr>]\<rparr>,
         \<lparr>rt_id = ''rtb-1'', rt_tags = Some [], associations_attribute = Some []\<rparr>]),
      Inr Done, Inr Done] =
   (Inr (),
    [(SubnetsAll ''vpc-1'', Inr (SubnetList [\<lparr>subnet_id = ''subnet-1'', subnet_tags = Some []\<rparr>])),
     (DeleteSubnet ''subnet-1'', Inr Done),
     (InternetGatewaysAll ''vpc-1'',
      Inr (InternetGatewayList [\<lparr>igw_id = ''igw-1'', igw_tags = Some []\<rparr>])),
     (DetachInternetGateway ''vpc-1'' ''igw-1'', Inr Done),
     (DeleteInternetGateway ''igw-1'', Inr Done),
     (RouteTablesAll ''vpc-1'',
      Inr (RouteTableList
        [\<lparr>rt_id = ''rtb-0'', rt_tags = Some [],
          associations_attribute = Some [\<lparr>assoc_main = Some True\<rparr>]\<rparr>,
         \<lparr>rt_id = ''rtb-1'', rt_tags = Some [], associations_attribute = Some []\<rparr>])),
     (DeleteRouteTable ''rtb-1'', Inr Done),
     (DeleteVpc ''vpc-1'', Inr Done)],
    [])
   \<and> deleted_route_tables
    [(SubnetsAll ''vpc-1'', Inr (SubnetList [\<lparr>subnet_id = ''subnet-1'', subnet_tags = Some []\<rparr>])),
     (DeleteSubnet ''subnet-1'', Inr Done),
     (InternetGatewaysAll ''vpc-1'',
      Inr (InternetGatewayList [\<lparr>igw_id = ''igw-1'', igw_tags = Some []\<rparr>])),
     (DetachInternetGateway ''vpc-1'' ''igw-1'', Inr Done),
     (DeleteInternetGateway ''igw-1'', Inr Done),
     (RouteTablesAll ''vpc-1'',
      Inr (RouteTableList
        [\<lparr>rt_id = ''rtb-0'', rt_tags = Some [],
          associations_attribute = Some [\<lparr>assoc_main = Some True\<rparr>]\<rparr>,
         \<lparr>rt_id = ''rtb-1'', rt_tags = Some [], associations_attribute = Some []\<rparr>])),
     (DeleteRouteTable ''rtb-1'', Inr Done),
     (DeleteVpc ''vpc-1'', Inr Done)]
     = [''rtb-1'']
   \<and> carries_main \<lparr>rt_id = ''rtb-0'', rt_tags = Some [],
          associations_attribute = Some [\<lparr>assoc_main = Some True\<rparr>]\<rparr>
   \<and> \<not> carries_main \<lparr>rt_id = ''rtb-1'', rt_tags = Some [], associations_attribute = Some []\<rparr>
   \<and> cleanup_vpc accepting ''vpc-1'' 0 =
   (Inr (),
    [(SubnetsAll ''vpc-1'', Inr (SubnetList [])),
     (InternetGatewaysAll ''vpc-1'', Inr (InternetGatewayList [])),
     (RouteTablesAll ''vpc-1'', Inr (RouteTableList [])),
     (DeleteVpc ''vpc-1'', Inr Done)],
    4)
   \<and> (\<forall>c q. good (c, fst (accepting c q)))"
proof -
  have evaluated:
    "cleanup_vpc scripted ''vpc-1''
     [Inr (SubnetList [\<lparr>subnet_id = ''subnet-1'', subnet_tags = Some []\<rparr>]),
      Inr Done,
      Inr (InternetGatewayList [\<lparr>igw_id = ''igw-1'', igw_tags = Some []\<rparr>]),
      Inr Done, Inr Done,
      Inr (RouteTableList
        [\<lparr>rt_id = ''rtb-0'', rt_tags = Some [],
          associations_attribute = Some [\<lparr>assoc_main = Some True\<rparr>]\<rparr>,
         \<lparr>rt_id = ''rtb-1'', rt_tags = Some [], associations_attribute = Some []\<rparr>]),
      Inr Done, Inr Done] =
   (Inr (),
    [(SubnetsAll ''vpc-1'', Inr (SubnetList [\<lparr>subnet_id = ''subnet-1'', subnet_tags = Some []\<rparr>])),
     (DeleteSubnet ''subnet-1'', Inr Done),
     (InternetGatewaysAll ''vpc-1'',
      Inr (InternetGatewayList [\<lparr>igw_id = ''igw-1'', igw_tags = Some []\<rparr>])),
     (DetachInternetGateway ''vpc-1'' ''igw-1'', Inr Done),
     (DeleteInternetGateway ''igw-1'', Inr Done),
     (RouteTablesAll ''vpc-1'',
      Inr (RouteTableList
        [\<lparr>rt_id = ''rtb-0'', rt_tags = Some [],
          associations_attribute = Some [\<lparr>assoc_main = Some True\<rparr>]\<rparr>,
         \<lparr>rt_id = ''rtb-1'', rt_tags = Some [], associations_attribute = Some []\<rparr>])),
     (DeleteRouteTable ''rtb-1'', Inr Done),
     (DeleteVpc ''vpc-1'', Inr Done)],
    [])
   \<and> deleted_route_tables
    [(SubnetsAll ''vpc-1'', Inr (SubnetList [\<lparr>subnet_id = ''subnet-1'', subnet_tags = Some []\<rparr>])),
     (DeleteSubnet ''subnet-1'', Inr Done),
     (InternetGatewaysAll ''vpc-1'',
      Inr (InternetGatewayList [\<lparr>igw_id = ''igw-1'', igw_tags = Some []\<rparr>])),
     (DetachInternetGateway ''vpc-1'' ''igw-1'', Inr Done),
     (DeleteInternetGateway ''igw-1'', Inr Done),
     (RouteTablesAll ''vpc-1'',
      Inr (RouteTableList
        [\<lparr>rt_id = ''rtb-0'', rt_tags = Some [],
          associations_attribute = Some [\<lparr>assoc_main = Some True\<rparr>]\<rparr>,
         \<lparr>rt_id = ''rtb-1'', rt_tags = Some [], associations_attribute = Some []\<rparr>])),
     (DeleteRouteTable ''rtb-1'', Inr Done),
     (DeleteVpc ''vpc-1'', Inr Done)]
     = [''rtb-1'']
   \<and> carries_main \<lparr>rt_id = ''rtb-0'', rt_tags = Some [],
          associations_attribute = Some [\<lparr>assoc_main = Some True\<rparr>]\<rparr>
   \<and> \<not> carries_main \<lparr>rt_id = ''rtb-1'', rt_tags = Some [], associations_attribute = Some []\<rparr>
   \<and> cleanup_vpc accepting ''vpc-1'' 0 =
   (Inr (),
    [(SubnetsAll ''vpc-1'', Inr (SubnetList [])),
     (InternetGatewaysAll ''vpc-1'', Inr (InternetGatewayList [])),
     (RouteTablesAll ''vpc-1'', Inr (RouteTableList [])),
     (DeleteVpc ''vpc-1'', Inr Done)],
    4)
   \<and> (\<forall>c q. good (c, fst (accepting c q)))"
    by (intro conjI allI accepting_good)
       (simp_all add: full_cleanup_run empty_vpc_cleanup_run carries_main_def
          deleted_route_tables_def)
  from main_route_table_is_skipped [OF full_cleanup_run, THEN conjunct2, THEN conjunct1]
  have "prefix (deleted_route_tables
      [(SubnetsAll ''vpc-1'', Inr (SubnetList [\<lparr>subnet_id = ''subnet-1'', subnet_tags = Some []\<rparr>])),
     (DeleteSubnet ''subnet-1'', Inr Done),
     (InternetGatewaysAll ''vpc-1'',
      Inr (InternetGatewayList [\<lparr>igw_id = ''igw-1'', igw_tags = Some []\<rparr>])),
     (DetachInternetGateway ''vpc-1'' ''igw-1'', Inr Done),
     (DeleteInternetGateway ''igw-1'', Inr Done),
     (RouteTablesAll ''vpc-1'',
      Inr (RouteTableList
        [\<lparr>rt_id = ''rtb-0'', rt_tags = Some [],
          associations_attribute = Some [\<lparr>assoc_main = Some True\<rparr>]\<rparr>,
         \<lparr>rt_id = ''rtb-1'', rt_tags = Some [], associations_attribute = Some []\<rparr>])),
     (DeleteRouteTable ''rtb-1'', Inr Done),
     (DeleteVpc ''vpc-1'', Inr Done)])
     (map rt_id (filter (\<lambda>t. \<not> carries_main t) (listed_route_tables
      [(SubnetsAll ''vpc-1'', Inr (SubnetList [\<lparr>subnet_id = ''subnet-1'', subnet_tags = Some []\<rparr>])),
     (DeleteSubnet ''subnet-1'', Inr Done),
     (InternetGatewaysAll ''vpc-1'',
      Inr (InternetGatewayList [\<lparr>igw_id = ''igw-1'', igw_tags = Some []\<rparr>])),
     (DetachInternetGateway ''vpc-1'' ''igw-1'', Inr Done),
     (DeleteInternetGateway ''igw-1'', Inr Done),
     (RouteTablesAll ''vpc-1'',
      Inr (RouteTableList
        [\<lparr>rt_id = ''rtb-0'', rt_tags = Some [],
          associations_attribute = Some [\<lparr>assoc_main = Some True\<rparr>]\<rparr>,
         \<lparr>rt_id = ''rtb-1'', rt_tags = Some [], associations_attribute = Some []\<rparr>])),
     (DeleteRouteTable ''rtb-1'', Inr Done),
     (DeleteVpc ''vpc-1'', Inr Done)])))" .
  then show ?thesis
    using evaluated by (rule conjI)
qed

lemma rejected_route_table_run:
  "cleanup_vpc scripted ''vpc-1''
     [Inr (SubnetList [\<lparr>subnet_id = ''subnet-1'', subnet_tags = Some []\<rparr>]), Inr Done, Inr (InternetGatewayList []),
      Inr (RouteTableList
        [\<lparr>rt_id = ''rtb-1'', rt_tags = Some [(''Name'', ''tutorial-public-rt'')],
          associations_attribute = Some [\<lparr>assoc_main = Some False\<rparr>]\<rparr>]),
      Inl (ClientError ''DependencyViolation'')] =
   (Inl (ClientError ''DependencyViolation''),
    [(SubnetsAll ''vpc-1'', Inr (SubnetList [\<lparr>subnet_id = ''subnet-1'', subnet_tags = Some []\<rparr>])),
     (DeleteSubnet ''subnet-1'', Inr Done),
     (InternetGatewaysAll ''vpc-1'', Inr (InternetGatewayList [])),
     (RouteTablesAll ''vpc-1'',
      Inr (RouteTableList
        [\<lparr>rt_id = ''rtb-1'', rt_tags = Some [(''Name'', ''tutorial-public-rt'')],
          associations_attribute = Some [\<lparr>assoc_main = Some False\<rparr>]\<rparr>]))]
    @ (DeleteRouteTable ''rtb-1'', Inl (ClientError ''DependencyViolation'')) # [],
    [])"
  by (simp add: cleanup_vpc_def listing_defs run_defs not_main_def)

text \<open>
  Claim C3, as the code has it. \<open>cleanup_vpc\<close> never disassociates. When it asks for
  the delete of a route table, the provider has confirmed the delete of every subnet it
  listed, the table is a listed one that carries no association marked Main, whatever
  other associations it is listed with, and if the provider raises on that delete, the
  call is the last of the run and the run raises the provider's exception. Every listed
  route table without a Main association gets its delete call unless the run raises. The
  calls of a run are a prefix of the calls of the complete cleanup, and all of them when
  it returns; the outcomes recorded are the provider's answers; the run returns exactly
  when every call went well and otherwise raises what its last call gives.
\<close>

theorem route_table_deleted_as_listed:
  assumes "cleanup_vpc prov v p = (r, tr, p')"
  shows "(\<forall>a. DisassociateRouteTable a \<notin> fst ` set tr)
     \<and> (\<forall>pre i out post. tr = pre @ (DeleteRouteTable i, out) # post \<longrightarrow>
           (\<forall>s \<in> set (listed_subnets tr).
               \<exists>rep. (DeleteSubnet (subnet_id s), Inr rep) \<in> set pre)
         \<and> (\<exists>t \<in> set (listed_route_tables tr). rt_id t = i \<and> \<not> carries_main t)
         \<and> (\<forall>e. out = Inl e \<longrightarrow> post = [] \<and> r = Inl e))
     \<and> (\<forall>t \<in> set (listed_route_tables tr). \<not> carries_main t \<longrightarrow>
           DeleteRouteTable (rt_id t) \<in> fst ` set tr \<or> (\<exists>e. r = Inl e))
     \<and> (r = Inr () \<longrightarrow>
          (RouteTablesAll v, Inr (RouteTableList (listed_route_tables tr))) \<in> set tr)
     \<and> prefix (map fst tr)
          (cleanup_calls v (listed_subnets tr) (listed_gateways tr) (listed_route_tables tr))
     \<and> (r = Inr () \<longrightarrow> map fst tr
          = cleanup_calls v (listed_subnets tr) (listed_gateways tr) (listed_route_tables tr))
     \<and> orderly r tr
     \<and> answers prov p (map fst tr) = (tr, p')"
proof (intro conjI)
  note shape = ensuresD [OF cleanup_vpc_shape assms]
  note fs = ensuresD [OF cleanup_vpc_fail_stop assms]
  show "\<forall>a. DisassociateRouteTable a \<notin> fst ` set tr"
    by (rule cleanup_never_disassociates [OF assms])
  show "\<forall>pre i out post. tr = pre @ (DeleteRouteTable i, out) # post \<longrightarrow>
           (\<forall>s \<in> set (listed_subnets tr).
               \<exists>rep. (DeleteSubnet (subnet_id s), Inr rep) \<in> set pre)
         \<and> (\<exists>t \<in> set (listed_route_tables tr). rt_id t = i \<and> \<not> carries_main t)
         \<and> (\<forall>e. out = Inl e \<longrightarrow> post = [] \<and> r = Inl e)"
  proof (intro allI impI conjI ballI)
    fix pre i out post
    assume tr: "tr = pre @ (DeleteRouteTable i, out) # post"
    from prefix_calls [OF conjunct1 [OF shape] tr] obtain zs where plan:
      "cleanup_calls v (listed_subnets tr) (listed_gateways tr) (listed_route_tables tr)
         = map fst pre @ DeleteRouteTable i # zs" ..
    show "\<exists>rep. (DeleteSubnet (subnet_id s), Inr rep) \<in> set pre"
      if "s \<in> set (listed_subnets tr)" for s
    proof -
      from subnets_before_route_tables [OF plan] that
      have "DeleteSubnet (subnet_id s) \<in> set (map fst pre)" by (rule bspec)
      from succeeded_before [OF fs tr this] show ?thesis .
    qed
    have "i \<in> set (deleted_route_tables tr)"
      using tr by (simp add: deleted_route_tables_def)
    with set_mono_prefix [OF deleted_route_tables_prefix [OF assms]]
    have "i \<in> set (map rt_id (filter (\<lambda>t. \<not> carries_main t) (listed_route_tables tr)))"
      by (rule subsetD)
    then show "\<exists>t \<in> set (listed_route_tables tr). rt_id t = i \<and> \<not> carries_main t"
      by auto
    show "post = []" and "r = Inl e" if "out = Inl e" for e
      using fail_stopD [OF fs, of pre "DeleteRouteTable i" e post] tr that by simp_all
  qed
  show "\<forall>t \<in> set (listed_route_tables tr). \<not> carries_main t \<longrightarrow>
           DeleteRouteTable (rt_id t) \<in> fst ` set tr \<or> (\<exists>e. r = Inl e)"
  proof (intro ballI impI)
    fix t
    assume t: "t \<in> set (listed_route_tables tr)" "\<not> carries_main t"
    show "DeleteRouteTable (rt_id t) \<in> fst ` set tr \<or> (\<exists>e. r = Inl e)"
    proof (cases r)
      case (Inl e)
      then show ?thesis by simp
    next
      case (Inr u)
      with conjunct2 [OF shape] have "set (map fst tr) = set (cleanup_calls v (listed_subnets tr) (listed_gateways tr) (listed_route_tables tr))"
        by simp
      moreover from t have "DeleteRouteTable (rt_id t) \<in> set (cleanup_calls v (listed_subnets tr) (listed_gateways tr) (listed_route_tables tr))"
        by (simp add: cleanup_calls_def not_main_iff)
      ultimately show ?thesis by simp
    qed
  qed
  show "r = Inr () \<longrightarrow>
          (RouteTablesAll v, Inr (RouteTableList (listed_route_tables tr))) \<in> set tr"
    by (rule ensuresD [OF cleanup_vpc_lists_route_tables assms])
  show "prefix (map fst tr)
          (cleanup_calls v (listed_subnets tr) (listed_gateways tr) (listed_route_tables tr))"
    by (rule conjunct1 [OF shape])
  show "r = Inr () \<longrightarrow> map fst tr
          = cleanup_calls v (listed_subnets tr) (listed_gateways tr) (listed_route_tables tr)"
    by (rule conjunct2 [OF shape])
  show "orderly r tr"
    by (rule ensuresD [OF cleanup_vpc_orderly assms])
  show "answers prov p (map fst tr) = (tr, p')"
    by (rule faithfulD [OF cleanup_vpc_faithful assms])
qed

theorem route_table_deleted_as_listed_witness:
  "(\<exists>t \<in> set (listed_route_tables
      ([(SubnetsAll ''vpc-1'', Inr (SubnetList [\<lparr>subnet_id = ''subnet-1'', subnet_tags = Some []\<rparr>])),
     (DeleteSubnet ''subnet-1'', Inr Done),
     (InternetGatewaysAll ''vpc-1'', Inr (InternetGatewayList [])),
     (RouteTablesAll ''vpc-1'',
      Inr (RouteTableList
        [\<lparr>rt_id = ''rtb-1'', rt_tags = Some [(''Name'', ''tutorial-public-rt'')],
          associations_attribute = Some [\<lparr>assoc_main = Some False\<rparr>]\<rparr>]))]
       @ (DeleteRouteTable ''rtb-1'', Inl (ClientError ''DependencyViolation'')) # [])).
       rt_id t = ''rtb-1'' \<and> \<not> carries_main t)
   \<and> cleanup_vpc scripted ''vpc-1''
     [Inr (SubnetList [\<lparr>subnet_id = ''subnet-1'', subnet_tags = Some []\<rparr>]), Inr Done, Inr (InternetGatewayList []),
      Inr (RouteTableList
        [\<lparr>rt_id = ''rtb-1'', rt_tags = Some [(''Name'', ''tutorial-public-rt'')],
          associations_attribute = Some [\<lparr>assoc_main = Some False\<rparr>]\<rparr>]),
      Inl (ClientError ''DependencyViolation'')] =
   (Inl (ClientError ''DependencyViolation''),
    [(SubnetsAll ''vpc-1'', Inr (SubnetList [\<lparr>subnet_id = ''subnet-1'', subnet_tags = Some []\<rparr>])),
     (DeleteSubnet ''subnet-1'', Inr Done),
     (InternetGatewaysAll ''vpc-1'', Inr (InternetGatewayList [])),
     (RouteTablesAll ''vpc-1'',
      Inr (RouteTableList
        [\<lparr>rt_id = ''rtb-1'', rt_tags = Some [(''Name'', ''tutorial-public-rt'')],
          associations_attribute = Some [\<lparr>assoc_main = Some False\<rparr>]\<rparr>]))]
    @ (DeleteRouteTable ''rtb-1'', Inl (ClientError ''DependencyViolation'')) # [],
    [])
   \<and> (\<exists>rep. (DeleteSubnet ''subnet-1'', Inr rep) \<in> set
    [(SubnetsAll ''vpc-1'', Inr (SubnetList [\<lparr>subnet_id = ''subnet-1'', subnet_tags = Some []\<rparr>])),
     (DeleteSubnet ''subnet-1'', Inr Done),
     (InternetGatewaysAll ''vpc-1'', Inr (InternetGatewayList [])),
     (RouteTablesAll ''vpc-1'',
      Inr (RouteTableList
        [\<lparr>rt_id = ''rtb-1'', rt_tags = Some [(''Name'', ''tutorial-public-rt'')],
          associations_attribute = Some [\<lparr>assoc_main = Some False\<rparr>]\<rparr>]))])
   \<and> \<not> carries_main \<lparr>rt_id = ''rtb-1'', rt_tags = Some [(''Name'', ''tutorial-public-rt'')],
          associations_attribute = Some [\<lparr>assoc_main = Some False\<rparr>]\<rparr>"
proof -
  have evaluated:
    "cleanup_vpc scripted ''vpc-1''
     [Inr (SubnetList [\<lparr>subnet_id = ''subnet-1'', subnet_tags = Some []\<rparr>]), Inr Done, Inr (InternetGatewayList []),
      Inr (RouteTableList
        [\<lparr>rt_id = ''rtb-1'', rt_tags = Some [(''Name'', ''tutorial-public-rt'')],
          associations_attribute = Some [\<lparr>assoc_main = Some False\<rparr>]\<rparr>]),
      Inl (ClientError ''DependencyViolation'')] =
   (Inl (ClientError ''DependencyViolation''),
    [(SubnetsAll ''vpc-1'', Inr (SubnetList [\<lparr>subnet_id = ''subnet-1'', subnet_tags = Some []\<rparr>])),
     (DeleteSubnet ''subnet-1'', Inr Done),
     (InternetGatewaysAll ''vpc-1'', Inr (InternetGatewayList [])),
     (RouteTablesAll ''vpc-1'',
      Inr (RouteTableList
        [\<lparr>rt_id = ''rtb-1'', rt_tags = Some [(''Name'', ''tutorial-public-rt'')],
          associations_attribute = Some [\<lparr>assoc_main = Some False\<rparr>]\<rparr>]))]
    @ (DeleteRouteTable ''rtb-1'', Inl (ClientError ''DependencyViolation'')) # [],
    [])
   \<and> (\<exists>rep. (DeleteSubnet ''subnet-1'', Inr rep) \<in> set
    [(SubnetsAll ''vpc-1'', Inr (SubnetList [\<lparr>subnet_id = ''subnet-1'', subnet_tags = Some []\<rparr>])),
     (DeleteSubnet ''subnet-1'', Inr Done),
     (InternetGatewaysAll ''vpc-1'', Inr (InternetGatewayList [])),
     (RouteTablesAll ''vpc-1'',
      Inr (RouteTableList
        [\<lparr>rt_id = ''rtb-1'', rt_tags = Some [(''Name'', ''tutorial-public-rt'')],
          associations_attribute = Some [\<lparr>assoc_main = Some False\<rparr>]\<rparr>]))])
   \<and> \<not> carries_main \<lparr>rt_id = ''rtb-1'', rt_tags = Some [(''Name'', ''tutorial-public-rt'')],
          associations_attribute = Some [\<lparr>assoc_main = Some False\<rparr>]\<rparr>"
    by (simp add: rejected_route_table_run carries_main_def)
  from route_table_deleted_as_listed
    [OF rejected_route_table_run, THEN conjunct2, THEN conjunct1, rule_format, OF refl,
     THEN conjunct2, THEN conjunct1]
  have "(\<exists>t \<in> set (listed_route_tables
      ([(SubnetsAll ''vpc-1'', Inr (SubnetList [\<lparr>subnet_id = ''subnet-1'', subnet_tags = Some []\<rparr>])),
     (DeleteSubnet ''subnet-1'', Inr Done),
     (InternetGatewaysAll ''vpc-1'', Inr (InternetGatewayList [])),
     (RouteTablesAll ''vpc-1'',
      Inr (RouteTableList
        [\<lparr>rt_id = ''rtb-1'', rt_tags = Some [(''Name'', ''tutorial-public-rt'')],
          associations_attribute = Some [\<lparr>assoc_main = Some False\<rparr>]\<rparr>]))]
       @ (DeleteRouteTable ''rtb-1'', Inl (ClientError ''DependencyViolation'')) # [])).
       rt_id t = ''rtb-1'' \<and> \<not> carries_main t)" .
  then show ?thesis
    using evaluated by (rule conjI)
qed

text \<open>
  Claim C3 as stated fails: the provider lists a route table that still has a subnet
  association. \<open>cleanup_vpc\<close> removes no association; its next call is the delete of the
  table, and the provider's \<open>DependencyViolation\<close> is what the run raises.
\<close>

theorem associated_route_table_is_deleted_directly:
  "cleanup_vpc scripted ''vpc-1''
     [Inr (SubnetList []), Inr (InternetGatewayList []),
      Inr (RouteTableList
        [\<lparr>rt_id = ''rtb-1'', rt_tags = Some [(''Name'', ''tutorial-public-rt'')],
          associations_attribute = Some [\<lparr>assoc_main = Some False\<rparr>]\<rparr>]),
      Inl (ClientError ''DependencyViolation'')] =
   (Inl (ClientError ''DependencyViolation''),
    [(SubnetsAll ''vpc-1'', Inr (SubnetList [])),
     (InternetGatewaysAll ''vpc-1'', Inr (InternetGatewayList [])),
     (RouteTablesAll ''vpc-1'',
      Inr (RouteTableList
        [\<lparr>rt_id = ''rtb-1'', rt_tags = Some [(''Name'', ''tutorial-public-rt'')],
          associations_attribute = Some [\<lparr>assoc_main = Some False\<rparr>]\<rparr>])),
     (DeleteRouteTable ''rtb-1'', Inl (ClientError ''DependencyViolation''))],
    [])"
  by (simp add: cleanup_vpc_def listing_defs run_defs not_main_def)

text \<open>
  Claim C4, as the code has it. Nothing is collected. In every run of \<open>cleanup_vpc\<close>, and
  likewise in every run of \<open>create_vpc\<close>, the first provider call that raises is the last
  call of the run and the run raises that same exception to its caller; the run returns
  only when every call went well, and otherwise raises what its last call gives.
\<close>

theorem first_failure_ends_run:
  "(\<forall>p r tr p' pre c e post.
       cleanup_vpc prov v p = (r, tr, p') \<longrightarrow> tr = pre @ (c, Inl e) # post \<longrightarrow>
       post = [] \<and> r = Inl e)
   \<and> (\<forall>p r tr p'. cleanup_vpc prov v p = (r, tr, p') \<longrightarrow> orderly r tr)
   \<and> (\<forall>p r tr p' pre c e post.
       create_vpc prov p = (r, tr, p') \<longrightarrow> tr = pre @ (c, Inl e) # post \<longrightarrow>
       post = [] \<and> r = Inl e)
   \<and> (\<forall>p r tr p'. create_vpc prov p = (r, tr, p') \<longrightarrow> orderly r tr)"
proof (intro conjI allI impI)
  fix p r tr p' pre c e post
  assume run: "cleanup_vpc prov v p = (r, tr, p')" and tr: "tr = pre @ (c, Inl e) # post"
  from fail_stopD [OF ensuresD [OF cleanup_vpc_fail_stop run] tr]
  show "post = []" and "r = Inl e" by simp_all
next
  fix p r tr p'
  assume "cleanup_vpc prov v p = (r, tr, p')"
  then show "orderly r tr" by (rule ensuresD [OF cleanup_vpc_orderly])
next
  fix p r tr p' pre c e post
  assume run: "create_vpc prov p = (r, tr, p')" and tr: "tr = pre @ (c, Inl e) # post"
  from fail_stopD [OF ensuresD [OF create_vpc_fail_stop run] tr]
  show "post = []" and "r = Inl e" by simp_all
next
  fix p r tr p'
  assume "create_vpc prov p = (r, tr, p')"
  then show "orderly r tr" by (rule ensuresD [OF create_vpc_orderly])
qed

theorem first_failure_ends_run_witness:
  "cleanup_vpc scripted ''vpc-1''
     [Inr (SubnetList [\<lparr>subnet_id = ''subnet-1'', subnet_tags = Some []\<rparr>,
                       \<lparr>subnet_id = ''subnet-2'', subnet_tags = Some []\<rparr>]),
      Inl (ClientError ''DependencyViolation''),
      Inr Done, Inr (InternetGatewayList []), Inr (RouteTableList []), Inr Done] =
   (Inl (ClientError ''DependencyViolation''),
    [(SubnetsAll ''vpc-1'',
      Inr (SubnetList [\<lparr>subnet_id = ''subnet-1'', subnet_tags = Some []\<rparr>,
                       \<lparr>subnet_id = ''subnet-2'', subnet_tags = Some []\<rparr>]))]
    @ (DeleteSubnet ''subnet-1'', Inl (ClientError ''DependencyViolation'')) # [],
    [Inr Done, Inr (InternetGatewayList []), Inr (RouteTableList []), Inr Done])
   \<and> create_vpc scripted [Inr (Created ''vpc-1''), Inl (ClientError ''RequestLimitExceeded'')] =
   (Inl (ClientError ''RequestLimitExceeded''),
    [(CreateVpc ''10.0.0.0/16'', Inr (Created ''vpc-1''))]
    @ (CreateTags ''vpc-1'' [(''Name'', ''tutorial-vpc'')], Inl (ClientError ''RequestLimitExceeded'')) # [],
    [])
   \<and> orderly (Inl (ClientError ''DependencyViolation'') :: exn + unit)
    ([(SubnetsAll ''vpc-1'',
      Inr (SubnetList [\<lparr>subnet_id = ''subnet-1'', subnet_tags = Some []\<rparr>,
                       \<lparr>subnet_id = ''subnet-2'', subnet_tags = Some []\<rparr>]))]
    @ (DeleteSubnet ''subnet-1'', Inl (ClientError ''DependencyViolation'')) # [])"
proof -
  have cleanup_split:
    "[(SubnetsAll ''vpc-1'',
       Inr (SubnetList [\<lparr>subnet_id = ''subnet-1'', subnet_tags = Some []\<rparr>,
                       \<lparr>subnet_id = ''subnet-2'', subnet_tags = Some []\<rparr>])),
      (DeleteSubnet ''subnet-1'', Inl (ClientError ''DependencyViolation''))]
     = [(SubnetsAll ''vpc-1'',
         Inr (SubnetList [\<lparr>subnet_id = ''subnet-1'', subnet_tags = Some []\<rparr>,
                       \<lparr>subnet_id = ''subnet-2'', subnet_tags = Some []\<rparr>]))]
       @ (DeleteSubnet ''subnet-1'', Inl (ClientError ''DependencyViolation'')) # []"
    by simp
  have create_split:
    "[(CreateVpc ''10.0.0.0/16'', Inr (Created ''vpc-1'')),
      (CreateTags ''vpc-1'' [(''Name'', ''tutorial-vpc'')], Inl (ClientError ''RequestLimitExceeded''))]
     = [(CreateVpc ''10.0.0.0/16'', Inr (Created ''vpc-1''))]
       @ (CreateTags ''vpc-1'' [(''Name'', ''tutorial-vpc'')],
          Inl (ClientError ''RequestLimitExceeded'')) # []"
    by simp
  note inst = first_failure_ends_run [of scripted "''vpc-1''"]
  note a = inst [THEN conjunct1, rule_format, OF subnet_in_use_run cleanup_split]
  note b = inst [THEN conjunct2, THEN conjunct1, rule_format, OF subnet_in_use_run]
  note c = inst [THEN conjunct2, THEN conjunct2, THEN conjunct1, rule_format,
      OF create_vpc_tagging_fails_run create_split]
  from a b c show ?thesis
    by (simp add: subnet_in_use_run create_vpc_tagging_fails_run)
qed

text \<open>
  Claim C4 as stated fails: the provider refuses to delete the first of two subnets;
  \<open>cleanup_vpc\<close> raises at once, the second subnet is never tried, and the four
  replies the provider had ready for the rest of the teardown are left unused.
\<close>

theorem cleanup_stops_at_first_failure:
  "cleanup_vpc scripted ''vpc-1''
     [Inr (SubnetList [\<lparr>subnet_id = ''subnet-1'', subnet_tags = Some []\<rparr>,
                       \<lparr>subnet_id = ''subnet-2'', subnet_tags = Some []\<rparr>]),
      Inl (ClientError ''DependencyViolation''),
      Inr Done, Inr (InternetGatewayList []), Inr (RouteTableList []), Inr Done] =
   (Inl (ClientError ''DependencyViolation''),
    [(SubnetsAll ''vpc-1'',
      Inr (SubnetList [\<lparr>subnet_id = ''subnet-1'', subnet_tags = Some []\<rparr>,
                       \<lparr>subnet_id = ''subnet-2'', subnet_tags = Some []\<rparr>])),
     (DeleteSubnet ''subnet-1'', Inl (ClientError ''DependencyViolation''))],
    [Inr Done, Inr (InternetGatewayList []), Inr (RouteTableList []), Inr Done])"
  by (simp add: cleanup_vpc_def listing_defs run_defs)

end
